theory Spec2Isabelle
  imports Main "HOL-Library.Word"
begin

unbundle bit_operations_syntax

section \<open>PTY subprocess creation and reaping (src/main/jni/pty.c)\<close>

text \<open>
  The file holds two JNI entry points: \<open>createSubprocess\<close>, which builds a terminal
  profile, calls \<open>forkpty\<close> and then runs either the child branch (chdir, build envp and
  argv, execvpe) or the parent branch (return pid and master descriptor in an int[2]),
  and \<open>waitFor\<close>, which calls \<open>waitpid\<close> and decodes the status.

  The embedding keeps the control flow of the C text. Calls into the C library, the
  kernel and the JNI are primitive steps: each one records an event, and its outcome
  (success or failure) is read from a record of outcomes, so that every path of the C
  text is a path of the model.
\<close>

subsection \<open>The terminal profile (lines 28--43)\<close>

text \<open>
  \<open>struct termios\<close>, its flag bits and the indices of \<open>c_cc\<close> come from the platform
  header \<open>termios.h\<close>, which is not part of the repository. They are given here with
  the values of Linux and Android (\<open>asm-generic/termbits.h\<close>): \<open>tcflag_t\<close> is an unsigned
  32-bit integer, \<open>cc_t\<close> an unsigned byte, and \<open>c_cc\<close> has \<open>NCCS = 19\<close> slots. The
  fields are those of the kernel's \<open>struct termios\<close>, which is the one of bionic.
\<close>

type_synonym tcflag_t = "32 word"
type_synonym cc_t = "8 word"

record termios =
  c_iflag :: tcflag_t
  c_oflag :: tcflag_t
  c_cflag :: tcflag_t
  c_lflag :: tcflag_t
  c_line :: cc_t
  c_cc :: "cc_t list"

definition NCCS :: nat where "NCCS = 19"

definition ICRNL :: tcflag_t where "ICRNL = 0x100"
definition IXON :: tcflag_t where "IXON = 0x400"
definition IXANY :: tcflag_t where "IXANY = 0x800"
definition OPOST :: tcflag_t where "OPOST = 0x1"
definition ONLCR :: tcflag_t where "ONLCR = 0x4"
definition ISIG :: tcflag_t where "ISIG = 0x1"
definition ICANON :: tcflag_t where "ICANON = 0x2"
definition ECHO :: tcflag_t where "ECHO = 0x8"
definition ECHOE :: tcflag_t where "ECHOE = 0x10"
definition ECHOK :: tcflag_t where "ECHOK = 0x20"
definition ECHONL :: tcflag_t where "ECHONL = 0x40"
definition IEXTEN :: tcflag_t where "IEXTEN = 0x8000"
definition CS8 :: tcflag_t where "CS8 = 0x30"
definition CREAD :: tcflag_t where "CREAD = 0x80"

definition VINTR :: nat where "VINTR = 0"
definition VQUIT :: nat where "VQUIT = 1"
definition VERASE :: nat where "VERASE = 2"
definition VKILL :: nat where "VKILL = 3"
definition VEOF :: nat where "VEOF = 4"
definition VTIME :: nat where "VTIME = 5"
definition VMIN :: nat where "VMIN = 6"
definition VSTART :: nat where "VSTART = 8"
definition VSTOP :: nat where "VSTOP = 9"
definition VSUSP :: nat where "VSUSP = 10"

text \<open>A character constant of C, as the byte it denotes.\<close>

definition cc :: "char \<Rightarrow> cc_t" where
  "cc c = of_char c"

text \<open>\<open>memset(&tt, 0, sizeof(tt))\<close>.\<close>

definition memset_termios :: termios where
  "memset_termios =
     \<lparr>c_iflag = 0, c_oflag = 0, c_cflag = 0, c_lflag = 0, c_line = 0,
      c_cc = replicate NCCS 0\<rparr>"

text \<open>Lines 30--43, one assignment after the other. Every index is below \<open>NCCS\<close>.\<close>

definition tt :: termios where
  "tt =
    (let t0 = memset_termios;
         t1 = t0\<lparr>c_iflag := ICRNL OR IXON OR IXANY\<rparr>;
         t2 = t1\<lparr>c_oflag := OPOST OR ONLCR\<rparr>;
         t3 = t2\<lparr>c_lflag := ISIG OR ICANON OR ECHO OR ECHOE OR ECHOK OR ECHONL OR IEXTEN\<rparr>;
         t4 = t3\<lparr>c_cflag := CS8 OR CREAD\<rparr>;
         t5 = t4\<lparr>c_cc := (c_cc t4)[VINTR := cc CHR ''C'' - cc CHR ''@'']\<rparr>;
         t6 = t5\<lparr>c_cc := (c_cc t5)[VQUIT := cc CHR 0x5C - cc CHR ''@'']\<rparr>;
         t7 = t6\<lparr>c_cc := (c_cc t6)[VERASE := 0x7f]\<rparr>;
         t8 = t7\<lparr>c_cc := (c_cc t7)[VKILL := cc CHR ''U'' - cc CHR ''@'']\<rparr>;
         t9 = t8\<lparr>c_cc := (c_cc t8)[VEOF := cc CHR ''D'' - cc CHR ''@'']\<rparr>;
         t10 = t9\<lparr>c_cc := (c_cc t9)[VSTOP := cc CHR ''S'' - cc CHR ''@'']\<rparr>;
         t11 = t10\<lparr>c_cc := (c_cc t10)[VSUSP := cc CHR ''Z'' - cc CHR ''@'']\<rparr>;
         t12 = t11\<lparr>c_cc := (c_cc t11)[VSTART := cc CHR ''Q'' - cc CHR ''@'']\<rparr>;
         t13 = t12\<lparr>c_cc := (c_cc t12)[VMIN := 1]\<rparr>;
         t14 = t13\<lparr>c_cc := (c_cc t13)[VTIME := 0]\<rparr>
     in t14)"

subsection \<open>Reaping (lines 99--107)\<close>

text \<open>
  \<open>WIFEXITED\<close> and \<open>WEXITSTATUS\<close> are macros of the platform header \<open>sys/wait.h\<close>, which is
  not part of the repository. They are given with their Linux definitions (the same in
  bionic and glibc): \<open>WIFEXITED(s)\<close> is \<open>(s & 0x7f) == 0\<close> and \<open>WEXITSTATUS(s)\<close> is
  \<open>(s & 0xff00) >> 8\<close>. \<open>int\<close> and \<open>jint\<close> are 32 bits wide; \<open>sint\<close> reads them.
\<close>

type_synonym jint = "32 word"

definition WIFEXITED :: "jint \<Rightarrow> bool" where
  "WIFEXITED s = (s AND 0x7f = 0)"

definition WEXITSTATUS :: "jint \<Rightarrow> jint" where
  "WEXITSTATUS s = drop_bit 8 (s AND 0xff00)"

text \<open>
  What \<open>waitpid(pid, &status, 0)\<close> did: it either reports a state change and stores the
  status word, or it fails (\<open>ECHILD\<close> for a process identifier that is not a child of
  the caller or was reaped before, \<open>EINTR\<close>), returns \<open>-1\<close> and leaves \<open>status\<close> as it was.
\<close>

datatype wait_errno = ECHILD | EINTR | EINVAL

datatype waitpid_result = Reported jint | Failed wait_errno

text \<open>
  \<open>int status;\<close> is not initialised: before the call it holds whatever the stack held,
  here the argument \<open>stack\<close>. The value \<open>waitpid\<close> returns is not read by the code.
\<close>

definition waitFor :: "jint \<Rightarrow> waitpid_result \<Rightarrow> jint" where
  "waitFor stack r =
     (let status = (case r of Reported s \<Rightarrow> s | Failed e \<Rightarrow> stack)
      in if WIFEXITED status then WEXITSTATUS status else - 1)"

text \<open>
  The status word the Linux kernel stores for each kind of state change: an exit with
  the low eight bits of the code the program declared, a death by signal (with or
  without a core dump), a stop, a continuation.
\<close>

datatype state_change =
    Exited "8 word"
  | Signaled "7 word" bool
  | Stopped "8 word"
  | Continued

fun status_of :: "state_change \<Rightarrow> jint" where
  "status_of (Exited c) = push_bit 8 (ucast c)"
| "status_of (Signaled sig core) = ucast sig OR (if core then 0x80 else 0)"
| "status_of (Stopped sig) = push_bit 8 (ucast sig) OR 0x7f"
| "status_of Continued = 0xffff"

subsection \<open>Memory, calls and their outcomes\<close>

text \<open>
  A pointer is \<open>NULL\<close> or an address. The heap maps the address of every live block to
  its content: the bytes of a buffer, or the slots of a \<open>char **\<close> vector, where a slot
  that was never written holds no value yet. \<open>NUL\<close> is the byte that ends a C string.
\<close>

datatype ptr = NULL | Addr nat

datatype block = Bytes string | Ptrs "ptr option list"

definition NUL :: char where
  "NUL = CHR 0x00"

text \<open>
  The calls the code makes; \<open>trace\<close> lists them in order. \<open>C_forkpty\<close> carries the
  terminal profile it was given, \<open>C_chdir\<close> and \<open>C_execvpe\<close> whether they succeeded,
  \<open>C_exit\<close> the status. \<open>C_log\<close> is the \<open>LOGE\<close> macro (\<open>__android_log_print\<close>).
\<close>

datatype call =
    C_forkpty termios
  | C_log
  | C_GetStringUTFChars
  | C_ReleaseStringUTFChars
  | C_chdir bool
  | C_exit int
  | C_GetArrayLength
  | C_GetObjectArrayElement
  | C_malloc
  | C_strdup
  | C_execvpe bool
  | C_NewIntArray
  | C_SetIntArrayRegion

text \<open>
  The state of the process that runs the code: its heap, the next address the allocator
  hands out (\<open>brk\<close>: the allocator of the model never hands out an address twice), the
  number of allocation requests made so far, the calls made so far, the descriptors the
  process has open and the children it has created.
\<close>

record world =
  heap :: "nat \<Rightarrow> block option"
  brk :: nat
  requests :: nat
  trace :: "call list"
  fds :: "int set"
  children :: "int set"

text \<open>
  What the platform answers. \<open>alloc_ok n\<close>: the \<open>n\<close>-th allocation request of the process
  (by \<open>malloc\<close>, \<open>strdup\<close> or \<open>GetStringUTFChars\<close>) succeeds. \<open>openpty_out\<close>: the descriptor
  pair \<open>forkpty\<close> obtains, if it obtains one. \<open>fork_out\<close>: what \<open>fork\<close> returns inside
  \<open>forkpty\<close> (\<open>-1\<close>, \<open>0\<close> in the new process, the child's identifier in the caller).
  \<open>chdir_ok\<close> and \<open>exec_ok\<close>: whether the directory can be entered and the program
  started. \<open>NewIntArray_ok\<close>: whether the Java heap has room for the result.
\<close>

record outcomes =
  alloc_ok :: "nat \<Rightarrow> bool"
  openpty_out :: "(int \<times> int) option"
  fork_out :: int
  chdir_ok :: "string \<Rightarrow> bool"
  exec_ok :: "string \<Rightarrow> string list \<Rightarrow> string list \<Rightarrow> bool"
  NewIntArray_ok :: bool

definition called :: "call \<Rightarrow> world \<Rightarrow> world" where
  "called c w = w\<lparr>trace := trace w @ [c]\<rparr>"

text \<open>One allocation request: a fresh block holding \<open>b\<close>, or \<open>NULL\<close>.\<close>

definition alloc :: "outcomes \<Rightarrow> block \<Rightarrow> world \<Rightarrow> ptr \<times> world" where
  "alloc os b w =
     (if alloc_ok os (requests w)
      then (Addr (brk w),
            w\<lparr>heap := (heap w)(brk w \<mapsto> b), brk := Suc (brk w), requests := Suc (requests w)\<rparr>)
      else (NULL, w\<lparr>requests := Suc (requests w)\<rparr>))"

text \<open>\<open>(char **) malloc(sizeof(char *) * n)\<close>: \<open>n\<close> slots, none of them written yet.\<close>

definition malloc :: "outcomes \<Rightarrow> nat \<Rightarrow> world \<Rightarrow> ptr \<times> world" where
  "malloc os n w = alloc os (Ptrs (replicate n None)) (called C_malloc w)"

text \<open>
  A Java string is given by the bytes of its modified UTF-8 form, which is what
  \<open>GetStringUTFChars\<close> hands to C, in a buffer of its own with a terminating \<open>NUL\<close>; the
  JNI lets the call fail and return \<open>NULL\<close>. \<open>ReleaseStringUTFChars\<close> frees that buffer.
\<close>

definition GetStringUTFChars :: "outcomes \<Rightarrow> string \<Rightarrow> world \<Rightarrow> ptr \<times> world" where
  "GetStringUTFChars os js w = alloc os (Bytes (js @ [NUL])) (called C_GetStringUTFChars w)"

definition ReleaseStringUTFChars :: "ptr \<Rightarrow> world \<Rightarrow> world" where
  "ReleaseStringUTFChars p w =
     (let w' = called C_ReleaseStringUTFChars w
      in case p of NULL \<Rightarrow> w' | Addr a \<Rightarrow> w'\<lparr>heap := (heap w')(a := None)\<rparr>)"

text \<open>The C string a buffer holds: its bytes up to the first \<open>NUL\<close>.\<close>

definition c_str :: "string \<Rightarrow> string" where
  "c_str bs = takeWhile (\<lambda>c. c \<noteq> NUL) bs"

definition read_str :: "world \<Rightarrow> ptr \<Rightarrow> string option" where
  "read_str w p =
     (case p of
        NULL \<Rightarrow> None
      | Addr a \<Rightarrow> (case heap w a of Some (Bytes bs) \<Rightarrow> Some (c_str bs) | _ \<Rightarrow> None))"

text \<open>
  \<open>strdup(p)\<close>: a fresh buffer with a copy of the C string at \<open>p\<close>, or \<open>NULL\<close> when the
  allocation fails. Reading through \<open>NULL\<close> is undefined behaviour: the result \<open>None\<close>.
\<close>

definition strdup :: "outcomes \<Rightarrow> ptr \<Rightarrow> world \<Rightarrow> (ptr \<times> world) option" where
  "strdup os p w =
     (case read_str w p of
        None \<Rightarrow> None
      | Some s \<Rightarrow> Some (alloc os (Bytes (s @ [NUL])) (called C_strdup w)))"

text \<open>
  \<open>vec[i] = v\<close>. Writing through \<open>NULL\<close>, or outside the block, is undefined behaviour:
  the result \<open>None\<close>.
\<close>

definition store :: "ptr \<Rightarrow> nat \<Rightarrow> ptr \<Rightarrow> world \<Rightarrow> world option" where
  "store vec i v w =
     (case vec of
        NULL \<Rightarrow> None
      | Addr a \<Rightarrow>
          (case heap w a of
             Some (Ptrs xs) \<Rightarrow>
               if i < length xs then Some (w\<lparr>heap := (heap w)(a \<mapsto> Ptrs (xs[i := Some v]))\<rparr>)
               else None
           | _ \<Rightarrow> None))"

definition load :: "world \<Rightarrow> ptr \<Rightarrow> nat \<Rightarrow> ptr option" where
  "load w vec i =
     (case vec of
        NULL \<Rightarrow> None
      | Addr a \<Rightarrow>
          (case heap w a of
             Some (Ptrs xs) \<Rightarrow> if i < length xs then xs ! i else None
           | _ \<Rightarrow> None))"

text \<open>
  What a reader of a \<open>NULL\<close>-terminated vector sees: the strings up to the first \<open>NULL\<close>
  slot. \<open>None\<close> when there is no such slot or a slot before it is not a string.
\<close>

fun read_slots :: "world \<Rightarrow> ptr option list \<Rightarrow> string list option" where
  "read_slots w [] = None"
| "read_slots w (None # xs) = None"
| "read_slots w (Some NULL # xs) = Some []"
| "read_slots w (Some (Addr a) # xs) =
     (case read_str w (Addr a) of
        None \<Rightarrow> None
      | Some s \<Rightarrow> (case read_slots w xs of None \<Rightarrow> None | Some ss \<Rightarrow> Some (s # ss)))"

definition read_vec :: "world \<Rightarrow> ptr \<Rightarrow> string list option" where
  "read_vec w vec =
     (case vec of
        NULL \<Rightarrow> None
      | Addr a \<Rightarrow> (case heap w a of Some (Ptrs xs) \<Rightarrow> read_slots w xs | _ \<Rightarrow> None))"

subsection \<open>Building envp and argv (lines 61--69 and 71--79)\<close>

text \<open>
  The two passages are the same code, once on \<open>envarray\<close> and once on \<open>cmdarray\<close>. A
  Java array of strings is the list of its elements; \<open>GetArrayLength\<close> is its length.
  Lengths are natural numbers in the model: \<open>env_len + 1\<close> and the size given to
  \<open>malloc\<close> do not wrap around, as they do not for any array a Java heap holds.

  The body of the \<open>for\<close> loop, from index \<open>i\<close>: get the element, get its bytes, store
  the duplicate in slot \<open>i\<close>, release the bytes. Neither the result of \<open>strdup\<close> nor that
  of \<open>GetStringUTFChars\<close> is tested.
\<close>

function marshal_loop :: "outcomes \<Rightarrow> string list \<Rightarrow> ptr \<Rightarrow> nat \<Rightarrow> world \<Rightarrow> world option" where
  "marshal_loop os arr vec i w =
     (if i < length arr then
        (let j_str = arr ! i;
             w1 = called C_GetObjectArrayElement w;
             (str, w2) = GetStringUTFChars os j_str w1
         in case strdup os str w2 of
              None \<Rightarrow> None
            | Some (d, w3) \<Rightarrow>
                (case store vec i d w3 of
                   None \<Rightarrow> None
                 | Some w4 \<Rightarrow> marshal_loop os arr vec (Suc i) (ReleaseStringUTFChars str w4)))
      else Some w)"
  by pat_completeness auto
termination
  by (relation "measure (\<lambda>(os, arr, vec, i, w). length arr - i)") auto

declare marshal_loop.simps [simp del]

text \<open>
  \<open>GetArrayLength\<close>, \<open>malloc\<close> of \<open>len + 1\<close> slots (its result is not tested), the loop,
  and the terminating \<open>vec[len] = NULL\<close>.
\<close>

definition marshal :: "outcomes \<Rightarrow> string list \<Rightarrow> world \<Rightarrow> (ptr \<times> world) option" where
  "marshal os arr w =
     (let len = length arr;
          w1 = called C_GetArrayLength w;
          (vec, w2) = malloc os (len + 1) w1
      in case marshal_loop os arr vec 0 w2 of
           None \<Rightarrow> None
         | Some w3 \<Rightarrow>
             (case store vec len NULL w3 of
                None \<Rightarrow> None
              | Some w4 \<Rightarrow> Some (vec, w4)))"

subsection \<open>createSubprocess (lines 20--97)\<close>

text \<open>
  \<open>forkpty\<close> is the C library's, not the repository's. It is modelled after its
  implementation in bionic and glibc: \<open>openpty\<close>, then \<open>fork\<close>; when \<open>fork\<close> fails both
  descriptors are closed and \<open>-1\<close> is returned; in the caller the slave is closed, the
  master is stored through the first argument and the child's identifier is returned;
  in the new process, which has no children, the master is closed and \<open>0\<close> is
  returned. The master is stored for the code to read in the caller only.
\<close>

definition forkpty :: "outcomes \<Rightarrow> termios \<Rightarrow> world \<Rightarrow> int \<times> int option \<times> world" where
  "forkpty os t w =
     (let w0 = called (C_forkpty t) w
      in case openpty_out os of
           None \<Rightarrow> (- 1, None, w0)
         | Some (pty, tty) \<Rightarrow>
             (let w1 = w0\<lparr>fds := fds w0 \<union> {pty, tty}\<rparr>;
                  pid = fork_out os
              in if pid = - 1 then (- 1, None, w1\<lparr>fds := fds w1 - {pty, tty}\<rparr>)
                 else if pid = 0 then (0, None, w1\<lparr>fds := fds w1 - {pty}, children := {}\<rparr>)
                 else (pid, Some pty,
                       w1\<lparr>fds := fds w1 - {tty}, children := insert pid (children w1)\<rparr>)))"

text \<open>
  How the function call ends: it returns to the Java caller (\<open>NULL\<close> or the \<open>int[2]\<close>),
  or the process exits, or the process image is replaced by the program (with the file
  name, the arguments and the environment the program is started with), or the
  behaviour is undefined.
\<close>

datatype result =
    Returned "int list option"
  | Child_exited int
  | Child_executed string "string list" "string list"
  | Undefined_behaviour

text \<open>
  \<open>execvpe(argv[0], argv, envp)\<close>, lines 81--85. It returns only when it fails; a \<open>NULL\<close>
  file name is refused (\<open>ENOENT\<close> in bionic). After a return: \<open>LOGE\<close> and \<open>exit(1)\<close>.
\<close>

definition execvpe :: "outcomes \<Rightarrow> ptr option \<Rightarrow> ptr \<Rightarrow> ptr \<Rightarrow> world \<Rightarrow> result \<times> world" where
  "execvpe os file argv envp w =
     (case file of
        None \<Rightarrow> (Undefined_behaviour, w)
      | Some f \<Rightarrow>
          (case (read_str w f, read_vec w argv, read_vec w envp) of
             (Some name, Some args, Some env) \<Rightarrow>
               if exec_ok os name args env
               then (Child_executed name args env, called (C_execvpe True) w)
               else (Child_exited 1, called (C_exit 1) (called C_log (called (C_execvpe False) w)))
           | _ \<Rightarrow> (Child_exited 1, called (C_exit 1) (called C_log (called (C_execvpe False) w)))))"

text \<open>The child branch, lines 53--85. \<open>chdir(NULL)\<close> fails (\<open>EFAULT\<close>).\<close>

definition child :: "outcomes \<Rightarrow> string list \<Rightarrow> string list \<Rightarrow> string \<Rightarrow> world \<Rightarrow> result \<times> world" where
  "child os cmdarray envarray workingDir w =
     (let (cwd, w1) = GetStringUTFChars os workingDir w;
          entered = (case read_str w1 cwd of None \<Rightarrow> False | Some path \<Rightarrow> chdir_ok os path);
          w2 = called (C_chdir entered) w1
      in if \<not> entered then (Child_exited 1, called (C_exit 1) (called C_log w2))
         else
           (let w3 = ReleaseStringUTFChars cwd w2
            in case marshal os envarray w3 of
                 None \<Rightarrow> (Undefined_behaviour, w3)
               | Some (envp, w4) \<Rightarrow>
                   (case marshal os cmdarray w4 of
                      None \<Rightarrow> (Undefined_behaviour, w4)
                    | Some (argv, w5) \<Rightarrow> execvpe os (load w5 argv 0) argv envp w5)))"

text \<open>
  The parent branch, lines 86--96: a Java \<open>int[2]\<close> (zero-filled), or \<open>NULL\<close> when it
  cannot be allocated; \<open>SetIntArrayRegion(env, result, 0, 2, fill)\<close> copies \<open>fill\<close> into it.
\<close>

definition SetIntArrayRegion :: "int list \<Rightarrow> nat \<Rightarrow> nat \<Rightarrow> int list \<Rightarrow> int list" where
  "SetIntArrayRegion arr start len buf = take start arr @ take len buf @ drop (start + len) arr"

definition parent :: "outcomes \<Rightarrow> int \<Rightarrow> int \<Rightarrow> world \<Rightarrow> result \<times> world" where
  "parent os pid master_fd w =
     (let w1 = called C_NewIntArray w
      in if \<not> NewIntArray_ok os then (Returned None, w1)
         else
           (let result = replicate 2 0;
                fill = [pid, master_fd];
                w2 = called C_SetIntArrayRegion w1
            in (Returned (Some (SetIntArrayRegion result 0 2 fill)), w2)))"

text \<open>
  The whole function. \<open>master_fd\<close> has no initial value; it is read in the parent
  branch only. \<open>pid_t\<close>, \<open>int\<close> and \<open>jint\<close> are 32-bit integers; the code compares and
  copies them and computes nothing with them, so they are integers here.
\<close>

definition createSubprocess ::
  "outcomes \<Rightarrow> string list \<Rightarrow> string list \<Rightarrow> string \<Rightarrow> world \<Rightarrow> result \<times> world" where
  "createSubprocess os cmdarray envarray workingDir w =
     (let (pid, master_fd, w1) = forkpty os tt w
      in if pid < 0 then (Returned None, called C_log w1)
         else if pid = 0 then child os cmdarray envarray workingDir w1
         else (case master_fd of
                 None \<Rightarrow> (Undefined_behaviour, w1)
               | Some fd \<Rightarrow> parent os pid fd w1))"

subsection \<open>Notions used to state the properties\<close>

text \<open>The calls made between two states of the same run.\<close>

definition calls_since :: "world \<Rightarrow> world \<Rightarrow> call list" where
  "calls_since w w' = drop (length (trace w)) (trace w')"

text \<open>The calls made while a vector is built (lines 61--79).\<close>

definition marshal_calls :: "call set" where
  "marshal_calls = {C_GetArrayLength, C_malloc, C_GetObjectArrayElement, C_GetStringUTFChars,
     C_strdup, C_ReleaseStringUTFChars}"

text \<open>
  Modelled from the spec: which calls are async-signal-safe is not written in the
  repository. The glossary of the specification describes the async-signal-safe set
  as "the restricted set of operations safe to perform in a freshly forked child
  before it execs, excluding most allocation and locking primitives"; the list of
  POSIX has \<open>chdir\<close> (and \<open>_exit\<close>, \<open>execve\<close>), and has neither \<open>malloc\<close>, \<open>strdup\<close>,
  \<open>exit\<close>, \<open>forkpty\<close>, \<open>execvpe\<close> nor any function of the JNI or of the Android log.
\<close>

fun async_signal_safe :: "call \<Rightarrow> bool" where
  "async_signal_safe (C_chdir ok) = True"
| "async_signal_safe c = False"

text \<open>
  What POSIX promises about the answers of the platform: \<open>fork\<close> returns \<open>-1\<close>, \<open>0\<close> or
  a positive process identifier, and the descriptors \<open>openpty\<close> returns are two
  different non-negative numbers that were not open before.
\<close>

definition platform_contract :: "outcomes \<Rightarrow> world \<Rightarrow> bool" where
  "platform_contract os w =
     (- 1 \<le> fork_out os \<and>
      (case openpty_out os of
         None \<Rightarrow> True
       | Some (pty, tty) \<Rightarrow> 0 \<le> pty \<and> 0 \<le> tty \<and> pty \<noteq> tty \<and> pty \<notin> fds w \<and> tty \<notin> fds w))"

text \<open>
  Concrete inputs for the examples: a process with the three standard descriptors
  open and an empty heap; a platform on which everything succeeds, with \<open>fork\<close>
  returning 1234 (the calling process), the directory \<open>/\<close> and the program
  \<open>/bin/echo\<close>; and an allocator that fails at one request only.
\<close>

definition world0 :: world where
  "world0 = \<lparr>heap = Map.empty, brk = 0, requests = 0, trace = [], fds = {0, 1, 2}, children = {}\<rparr>"

definition all_but :: "nat \<Rightarrow> nat \<Rightarrow> bool" where
  "all_but k n = (n \<noteq> k)"

definition always :: "nat \<Rightarrow> bool" where
  "always n = True"

definition only_root :: "string \<Rightarrow> bool" where
  "only_root path = (path = ''/'')"

definition only_echo :: "string \<Rightarrow> string list \<Rightarrow> string list \<Rightarrow> bool" where
  "only_echo name args env = (name = ''/bin/echo'')"

definition platform0 :: outcomes where
  "platform0 =
     \<lparr>alloc_ok = always, openpty_out = Some (5, 6), fork_out = 1234,
      chdir_ok = only_root, exec_ok = only_echo, NewIntArray_ok = True\<rparr>"

section \<open>Properties\<close>

lemma tt_flags:
  "c_iflag tt = 0xD00" "c_oflag tt = 0x5" "c_lflag tt = 0x807B" "c_cflag tt = 0xB0"
  by (simp_all add: tt_def memset_termios_def Let_def ICRNL_def IXON_def IXANY_def OPOST_def
      ONLCR_def ISIG_def ICANON_def ECHO_def ECHOE_def ECHOK_def ECHONL_def IEXTEN_def
      CS8_def CREAD_def)

lemma tt_cc:
  "c_cc tt = [0x03, 0x1C, 0x7F, 0x15, 0x04, 0, 1, 0, 0x11, 0x13, 0x1A, 0, 0, 0, 0, 0, 0, 0, 0]"
  by (simp add: tt_def memset_termios_def Let_def NCCS_def cc_def VINTR_def VQUIT_def
      VERASE_def VKILL_def VEOF_def VSTOP_def VSUSP_def VSTART_def VMIN_def VTIME_def
      numeral_eq_Suc)

subsection \<open>Decoding the wait status\<close>

lemma WIFEXITED_take_bit: "WIFEXITED s \<longleftrightarrow> take_bit 7 s = 0"
proof -
  have "(0x7f::32 word) = mask 7" by (simp add: mask_eq_exp_minus_1)
  then show ?thesis by (simp add: WIFEXITED_def take_bit_eq_mask)
qed

lemma WEXITSTATUS_take_bit: "WEXITSTATUS s = take_bit 8 (drop_bit 8 s)"
proof -
  have "(0xff00::32 word) = push_bit 8 (mask 8)" by (simp add: mask_eq_exp_minus_1)
  then have "WEXITSTATUS s = drop_bit 8 (s AND push_bit 8 (mask 8))"
    by (simp add: WEXITSTATUS_def)
  also have "\<dots> = take_bit 8 (drop_bit 8 s)"
    by (rule bit_word_eqI) (auto simp add: bit_simps)
  finally show ?thesis .
qed

lemma WEXITSTATUS_range: "0 \<le> sint (WEXITSTATUS s) \<and> sint (WEXITSTATUS s) < 256"
proof -
  have "sint (WEXITSTATUS s) = take_bit 8 (sint (drop_bit 8 s))"
    by (simp add: WEXITSTATUS_take_bit signed_take_bit_eq)
  moreover have "take_bit 8 (sint (drop_bit 8 s)) < 2 ^ 8"
    by (rule take_bit_int_less_exp)
  ultimately show ?thesis by simp
qed

lemma bit_nonzero: "bit (w::32 word) n \<Longrightarrow> w \<noteq> 0"
  by auto

lemma sint_ucast_byte: "sint (ucast (c :: 8 word) :: 32 word) = uint c"
  by (rule bit_eqI) (auto simp add: bit_simps min_def dest: bit_imp_le_length)

lemma WIFEXITED_Exited: "WIFEXITED (status_of (Exited c))"
  by (simp add: WIFEXITED_take_bit take_bit_push_bit)

lemma WEXITSTATUS_Exited: "WEXITSTATUS (status_of (Exited c)) = ucast c"
  unfolding WEXITSTATUS_take_bit
  by (simp, rule bit_word_eqI) (auto simp add: bit_simps dest: bit_imp_le_length)

lemma not_WIFEXITED_Signaled:
  assumes "sig \<noteq> 0"
  shows "\<not> WIFEXITED (status_of (Signaled sig core))"
proof -
  from assms obtain n where n: "bit sig n" by (auto simp add: bit_eq_iff)
  then have "n < 7" by (auto dest: bit_imp_le_length)
  with n have "bit (take_bit 7 (status_of (Signaled sig core))) n"
    by (simp add: bit_simps)
  then have "take_bit 7 (status_of (Signaled sig core)) \<noteq> 0" by (rule bit_nonzero)
  then show ?thesis by (simp add: WIFEXITED_take_bit)
qed

lemma not_WIFEXITED_Stopped: "\<not> WIFEXITED (status_of (Stopped sg))"
proof -
  have "bit (take_bit 7 (status_of (Stopped sg))) 0"
    by (simp add: bit_simps)
  then have "take_bit 7 (status_of (Stopped sg)) \<noteq> 0" by (rule bit_nonzero)
  then show ?thesis by (simp add: WIFEXITED_take_bit)
qed

lemma not_WIFEXITED_Continued: "\<not> WIFEXITED (status_of Continued)"
  by (simp add: WIFEXITED_def)

text \<open>
  C2. When \<open>waitpid\<close> reports a state change, \<open>waitFor\<close> returns the exit code of a child
  that terminated normally, a value from 0 to 255, and \<open>-1\<close> for every other status
  word: a child killed by a signal, a stopped child, a continued child, and any word
  whose low seven bits are not zero. \<open>-1\<close> is never the value returned for a normal exit.
\<close>

theorem waitFor_decodes_status:
  "(WIFEXITED s \<longrightarrow>
      waitFor stack (Reported s) = WEXITSTATUS s
      \<and> 0 \<le> sint (waitFor stack (Reported s)) \<and> sint (waitFor stack (Reported s)) \<le> 255)
   \<and> (\<not> WIFEXITED s' \<longrightarrow> sint (waitFor stack (Reported s')) = - 1)
   \<and> sint (waitFor stack (Reported (status_of (Exited c)))) = uint c
   \<and> sint (waitFor stack (Reported (status_of (Exited c)))) \<noteq> - 1
   \<and> (sig \<noteq> 0 \<longrightarrow> sint (waitFor stack (Reported (status_of (Signaled sig core)))) = - 1)
   \<and> sint (waitFor stack (Reported (status_of (Stopped sg)))) = - 1
   \<and> sint (waitFor stack (Reported (status_of Continued))) = - 1"
proof -
  have exited: "waitFor stack (Reported s) = WEXITSTATUS s" if "WIFEXITED s" for s
    using that by (simp add: waitFor_def)
  have other: "sint (waitFor stack (Reported s)) = - 1" if "\<not> WIFEXITED s" for s
    using that by (simp add: waitFor_def)
  have "waitFor stack (Reported (status_of (Exited c))) = ucast c"
    by (simp only: exited [OF WIFEXITED_Exited] WEXITSTATUS_Exited)
  then have code: "sint (waitFor stack (Reported (status_of (Exited c)))) = uint c"
    by (simp only: sint_ucast_byte)
  have "0 \<le> uint c" by simp
  with code have "sint (waitFor stack (Reported (status_of (Exited c)))) \<noteq> - 1"
    by linarith
  with code show ?thesis
    using exited [of s] WEXITSTATUS_range [of s] other [of s']
      other [OF not_WIFEXITED_Signaled, of sig core] other [OF not_WIFEXITED_Stopped, of sg]
      other [OF not_WIFEXITED_Continued]
    by simp
qed

theorem waitFor_decodes_status_witness:
  "WIFEXITED 0x700 \<and> sint (waitFor 0 (Reported 0x700)) = 7
   \<and> \<not> WIFEXITED 9 \<and> sint (waitFor 0 (Reported 9)) = - 1
   \<and> (9 :: 7 word) \<noteq> 0 \<and> sint (waitFor 0 (Reported (status_of (Signaled 9 False)))) = - 1"
  using waitFor_decodes_status [of "0x700" 0 9 0 9 False 0]
  by (simp add: WIFEXITED_def WEXITSTATUS_def)

text \<open>
  C7. When \<open>waitpid\<close> fails, the value \<open>waitFor\<close> returns does not depend on the error:
  it is decoded from what the variable \<open>status\<close> held before the call. With a zero on the
  stack a failed wait is reported as the exit code 0 of a successful child, with
  \<open>0x0700\<close> as exit code 7.
\<close>

theorem waitFor_failed_wait:
  "waitFor stack (Failed e) = waitFor stack (Reported stack)
   \<and> sint (waitFor 0 (Failed ECHILD)) = 0
   \<and> waitFor 0 (Failed ECHILD) = waitFor 0 (Reported (status_of (Exited 0)))
   \<and> sint (waitFor 0x700 (Failed ECHILD)) = 7"
  by (simp add: waitFor_def WIFEXITED_def WEXITSTATUS_def)

subsection \<open>The marshalling loop\<close>

lemma c_str_append_NUL: "c_str (s @ [NUL]) = c_str s"
  by (induction s) (simp_all add: c_str_def)

lemma c_str_no_NUL: "NUL \<notin> set s \<Longrightarrow> c_str s = s"
  by (induction s) (auto simp add: c_str_def)

lemma marshal_loop_done: "\<not> i < length arr \<Longrightarrow> marshal_loop os arr vec i w = Some w"
  by (simp add: marshal_loop.simps)

lemma marshal_loop_step:
  assumes "i < length arr" "alloc_ok os (requests w)" "heap w v = Some (Ptrs slots)"
    "i < length slots" "v < brk w"
  shows "\<exists>w1 d. marshal_loop os arr (Addr v) i w = marshal_loop os arr (Addr v) (Suc i) w1
    \<and> requests w1 = requests w + 2
    \<and> brk w < brk w1
    \<and> heap w1 v = Some (Ptrs (slots[i := Some d]))
    \<and> (\<forall>x. x \<noteq> v \<longrightarrow> x < brk w \<or> brk w1 \<le> x \<longrightarrow> heap w1 x = heap w x)
    \<and> heap w1 (brk w) = None
    \<and> (if alloc_ok os (Suc (requests w))
        then d = Addr (Suc (brk w)) \<and> brk w1 = brk w + 2
             \<and> heap w1 (Suc (brk w)) = Some (Bytes (c_str (arr ! i) @ [NUL]))
        else d = NULL \<and> brk w1 = Suc (brk w))
    \<and> fds w1 = fds w \<and> children w1 = children w
    \<and> trace w1 = trace w @ [C_GetObjectArrayElement, C_GetStringUTFChars, C_strdup,
                              C_ReleaseStringUTFChars]"
proof (cases "alloc_ok os (Suc (requests w))")
  case True
  with assms show ?thesis
    apply (subst marshal_loop.simps)
    apply (simp add: GetStringUTFChars_def alloc_def called_def strdup_def read_str_def
        store_def ReleaseStringUTFChars_def c_str_append_NUL Let_def)
    apply (intro exI conjI)
             apply (rule refl)
            apply simp_all
    done
next
  case False
  with assms show ?thesis
    apply (subst marshal_loop.simps)
    apply (simp add: GetStringUTFChars_def alloc_def called_def strdup_def read_str_def
        store_def ReleaseStringUTFChars_def c_str_append_NUL Let_def)
    apply (intro exI conjI)
             apply (rule refl)
            apply simp_all
    done
qed


lemma marshal_loop_spec:
  assumes "heap w v = Some (Ptrs slots)" "length slots = Suc (length arr)" "i \<le> length arr"
    "v < brk w" "\<forall>k. i \<le> k \<longrightarrow> k < length arr \<longrightarrow> alloc_ok os (requests w + 2 * (k - i))"
  shows "\<exists>w' slots'. marshal_loop os arr (Addr v) i w = Some w'
    \<and> heap w' v = Some (Ptrs slots') \<and> length slots' = Suc (length arr)
    \<and> requests w' = requests w + 2 * (length arr - i)
    \<and> brk w \<le> brk w'
    \<and> (\<forall>x. x \<noteq> v \<longrightarrow> x < brk w \<or> brk w' \<le> x \<longrightarrow> heap w' x = heap w x)
    \<and> (\<forall>k. k < i \<or> length arr \<le> k \<longrightarrow> slots' ! k = slots ! k)
    \<and> (\<forall>k. i \<le> k \<longrightarrow> k < length arr \<longrightarrow>
          (if alloc_ok os (requests w + 2 * (k - i) + 1)
           then \<exists>b. slots' ! k = Some (Addr b) \<and> brk w \<le> b \<and> b < brk w'
                    \<and> heap w' b = Some (Bytes (c_str (arr ! k) @ [NUL]))
           else slots' ! k = Some NULL))
    \<and> (\<forall>x. brk w \<le> x \<longrightarrow> x < brk w' \<longrightarrow> heap w' x \<noteq> None \<longrightarrow>
          (\<exists>k. i \<le> k \<and> k < length arr \<and> slots' ! k = Some (Addr x)))
    \<and> (\<forall>k k' b b'. i \<le> k \<longrightarrow> k < k' \<longrightarrow> k' < length arr \<longrightarrow>
          slots' ! k = Some (Addr b) \<longrightarrow> slots' ! k' = Some (Addr b') \<longrightarrow> b < b')
    \<and> fds w' = fds w \<and> children w' = children w"
  using assms
proof (induction "length arr - i" arbitrary: i w slots)
  case 0
  then have "marshal_loop os arr (Addr v) i w = Some w" "i = length arr"
    by (simp_all add: marshal_loop_done)
  with "0.prems"(1,2) show ?case by simp
next
  case (Suc n)
  then have i: "i < length arr" by simp
  have ok0: "alloc_ok os (requests w)"
    using Suc.prems(5) i by (metis le_refl diff_self_eq_0 mult_0_right add_0_right)
  have ilt: "i < length slots" using Suc.prems(2) i by simp
  from marshal_loop_step [OF i ok0 Suc.prems(1) ilt Suc.prems(4)]
  obtain w1 d where step:
    "marshal_loop os arr (Addr v) i w = marshal_loop os arr (Addr v) (Suc i) w1"
    "requests w1 = requests w + 2" "brk w < brk w1"
    "heap w1 v = Some (Ptrs (slots[i := Some d]))"
    "\<forall>x. x \<noteq> v \<longrightarrow> x < brk w \<or> brk w1 \<le> x \<longrightarrow> heap w1 x = heap w x"
    "heap w1 (brk w) = None"
    "if alloc_ok os (Suc (requests w))
        then d = Addr (Suc (brk w)) \<and> brk w1 = brk w + 2
             \<and> heap w1 (Suc (brk w)) = Some (Bytes (c_str (arr ! i) @ [NUL]))
        else d = NULL \<and> brk w1 = Suc (brk w)"
    "fds w1 = fds w" "children w1 = children w"
    "trace w1 = trace w @ [C_GetObjectArrayElement, C_GetStringUTFChars, C_strdup,
                              C_ReleaseStringUTFChars]"
    by (elim exE conjE) (rule that; assumption)
  have n: "n = length arr - Suc i" using Suc.hyps(2) by simp
  have p5: "\<forall>k. Suc i \<le> k \<longrightarrow> k < length arr \<longrightarrow> alloc_ok os (requests w1 + 2 * (k - Suc i))"
  proof (intro allI impI)
    fix k assume k: "Suc i \<le> k" "k < length arr"
    then have "requests w1 + 2 * (k - Suc i) = requests w + 2 * (k - i)"
      using step(2) by simp
    with Suc.prems(5) k show "alloc_ok os (requests w1 + 2 * (k - Suc i))" by simp
  qed
  have pre: "length (slots[i := Some d]) = Suc (length arr)" "Suc i \<le> length arr" "v < brk w1"
    using Suc.prems(2,4) i step(3) by simp_all
  from Suc.hyps(1) [OF n step(4) pre p5]
  obtain w' slots' where ih:
    "marshal_loop os arr (Addr v) (Suc i) w1 = Some w'"
    "heap w' v = Some (Ptrs slots')" "length slots' = Suc (length arr)"
    "requests w' = requests w1 + 2 * (length arr - Suc i)"
    "brk w1 \<le> brk w'"
    "\<forall>x. x \<noteq> v \<longrightarrow> x < brk w1 \<or> brk w' \<le> x \<longrightarrow> heap w' x = heap w1 x"
    "\<forall>k. k < Suc i \<or> length arr \<le> k \<longrightarrow> slots' ! k = slots[i := Some d] ! k"
    "\<forall>k. Suc i \<le> k \<longrightarrow> k < length arr \<longrightarrow>
          (if alloc_ok os (requests w1 + 2 * (k - Suc i) + 1)
           then \<exists>b. slots' ! k = Some (Addr b) \<and> brk w1 \<le> b \<and> b < brk w'
                    \<and> heap w' b = Some (Bytes (c_str (arr ! k) @ [NUL]))
           else slots' ! k = Some NULL)"
    "\<forall>x. brk w1 \<le> x \<longrightarrow> x < brk w' \<longrightarrow> heap w' x \<noteq> None \<longrightarrow>
          (\<exists>k. Suc i \<le> k \<and> k < length arr \<and> slots' ! k = Some (Addr x))"
    "\<forall>k k' b b'. Suc i \<le> k \<longrightarrow> k < k' \<longrightarrow> k' < length arr \<longrightarrow>
          slots' ! k = Some (Addr b) \<longrightarrow> slots' ! k' = Some (Addr b') \<longrightarrow> b < b'"
    "fds w' = fds w1" "children w' = children w1"
    by (elim exE conjE) (rule that; assumption)
  have slot_i: "slots' ! i = Some d"
    using ih(7) Suc.prems(2) i by simp
  have c1: "marshal_loop os arr (Addr v) i w = Some w'" using step(1) ih(1) by simp
  have c4: "requests w' = requests w + 2 * (length arr - i)"
    using ih(4) step(2) i by simp
  have c5: "brk w \<le> brk w'" using step(3) ih(5) by simp
  have c6: "\<forall>x. x \<noteq> v \<longrightarrow> x < brk w \<or> brk w' \<le> x \<longrightarrow> heap w' x = heap w x"
  proof (intro allI impI)
    fix x assume x: "x \<noteq> v" "x < brk w \<or> brk w' \<le> x"
    then have "x < brk w1 \<or> brk w' \<le> x" using step(3) by auto
    with ih(6) x(1) have "heap w' x = heap w1 x" by blast
    moreover have "x < brk w \<or> brk w1 \<le> x" using x(2) ih(5) by auto
    with step(5) x(1) have "heap w1 x = heap w x" by blast
    ultimately show "heap w' x = heap w x" by simp
  qed
  have c7: "\<forall>k. k < i \<or> length arr \<le> k \<longrightarrow> slots' ! k = slots ! k"
    using ih(7) i by auto
  have low: "heap w' x = heap w1 x" if "x < brk w1" "x \<noteq> v" for x
    using ih(6) that by simp
  have v_not: "v \<noteq> brk w" "v \<noteq> Suc (brk w)" using Suc.prems(4) by simp_all
  have c8: "\<forall>k. i \<le> k \<longrightarrow> k < length arr \<longrightarrow>
          (if alloc_ok os (requests w + 2 * (k - i) + 1)
           then \<exists>b. slots' ! k = Some (Addr b) \<and> brk w \<le> b \<and> b < brk w'
                    \<and> heap w' b = Some (Bytes (c_str (arr ! k) @ [NUL]))
           else slots' ! k = Some NULL)"
  proof (intro allI impI)
    fix k assume k: "i \<le> k" "k < length arr"
    show "if alloc_ok os (requests w + 2 * (k - i) + 1)
           then \<exists>b. slots' ! k = Some (Addr b) \<and> brk w \<le> b \<and> b < brk w'
                    \<and> heap w' b = Some (Bytes (c_str (arr ! k) @ [NUL]))
           else slots' ! k = Some NULL"
    proof (cases "k = i")
      case True
      show ?thesis
      proof (cases "alloc_ok os (Suc (requests w))")
        case ok: True
        with step(7) have d: "d = Addr (Suc (brk w))" "brk w1 = brk w + 2"
          "heap w1 (Suc (brk w)) = Some (Bytes (c_str (arr ! i) @ [NUL]))" by simp_all
        have "heap w' (Suc (brk w)) = heap w1 (Suc (brk w))"
          using low [of "Suc (brk w)"] d(2) v_not by simp
        with d slot_i ok True ih(5) show ?thesis by simp
      next
        case False
        with step(7) slot_i True show ?thesis by simp
      qed
    next
      case False
      with k have k': "Suc i \<le> k" by simp
      then have eq: "requests w1 + 2 * (k - Suc i) + 1 = requests w + 2 * (k - i) + 1"
        using step(2) by simp
      from ih(8) k' k(2) eq step(3) show ?thesis
        by (auto split: if_splits)
    qed
  qed
  have c9: "\<forall>x. brk w \<le> x \<longrightarrow> x < brk w' \<longrightarrow> heap w' x \<noteq> None \<longrightarrow>
          (\<exists>k. i \<le> k \<and> k < length arr \<and> slots' ! k = Some (Addr x))"
  proof (intro allI impI)
    fix x assume x: "brk w \<le> x" "x < brk w'" "heap w' x \<noteq> None"
    show "\<exists>k. i \<le> k \<and> k < length arr \<and> slots' ! k = Some (Addr x)"
    proof (cases "x < brk w1")
      case True
      then have hx: "heap w' x = heap w1 x" using low [of x] x(1) Suc.prems(4) by simp
      show ?thesis
      proof (cases "alloc_ok os (Suc (requests w))")
        case ok: True
        with step(7) have d: "d = Addr (Suc (brk w))" "brk w1 = brk w + 2" by simp_all
        with True x(1) have "x = brk w \<or> x = Suc (brk w)" by arith
        with hx x(3) step(6) have "x = Suc (brk w)" by auto
        with d slot_i i show ?thesis by auto
      next
        case False
        with step(7) have "brk w1 = Suc (brk w)" by simp
        with True x(1) have "x = brk w" by arith
        with hx x(3) step(6) show ?thesis by simp
      qed
    next
      case False
      with ih(9) x obtain k where "Suc i \<le> k" "k < length arr" "slots' ! k = Some (Addr x)"
        by (metis not_less)
      then show ?thesis by (metis Suc_leD)
    qed
  qed
  have c10: "\<forall>k k' b b'. i \<le> k \<longrightarrow> k < k' \<longrightarrow> k' < length arr \<longrightarrow>
          slots' ! k = Some (Addr b) \<longrightarrow> slots' ! k' = Some (Addr b') \<longrightarrow> b < b'"
  proof (intro allI impI)
    fix k k' b b'
    assume a: "i \<le> k" "k < k'" "k' < length arr" "slots' ! k = Some (Addr b)"
      "slots' ! k' = Some (Addr b')"
    show "b < b'"
    proof (cases "k = i")
      case True
      with a(4) slot_i have "d = Addr b" by simp
      with step(7) have b: "b < brk w1" by (auto split: if_splits)
      from a True have "Suc i \<le> k'" by simp
      with ih(8) a(3,5) have "brk w1 \<le> b'" by (auto split: if_splits)
      with b show ?thesis by simp
    next
      case False
      with a(1) have "Suc i \<le> k" by simp
      with ih(10) a show ?thesis by blast
    qed
  qed
  have c11: "fds w' = fds w" "children w' = children w"
    using ih(11,12) step(8,9) by simp_all
  show ?case
    by (intro exI conjI) (rule c1 ih(2) ih(3) c4 c5 c6 c7 c8 c9 c10 c11)+
qed

lemma marshal_spec:
  assumes "alloc_ok os (requests w)" "\<forall>k<length arr. alloc_ok os (requests w + 1 + 2 * k)"
  shows "\<exists>w' slots. marshal os arr w = Some (Addr (brk w), w')
    \<and> heap w' (brk w) = Some (Ptrs slots) \<and> length slots = Suc (length arr)
    \<and> slots ! length arr = Some NULL
    \<and> requests w' = requests w + 1 + 2 * length arr
    \<and> brk w < brk w'
    \<and> (\<forall>x. x < brk w \<or> brk w' \<le> x \<longrightarrow> heap w' x = heap w x)
    \<and> (\<forall>k<length arr.
          (if alloc_ok os (requests w + 2 + 2 * k)
           then \<exists>b. slots ! k = Some (Addr b) \<and> brk w < b \<and> b < brk w'
                    \<and> heap w' b = Some (Bytes (c_str (arr ! k) @ [NUL]))
           else slots ! k = Some NULL))
    \<and> (\<forall>x. brk w < x \<longrightarrow> x < brk w' \<longrightarrow> heap w' x \<noteq> None \<longrightarrow>
          (\<exists>k<length arr. slots ! k = Some (Addr x)))
    \<and> (\<forall>k k' b b'. k < k' \<longrightarrow> k' < length arr \<longrightarrow>
          slots ! k = Some (Addr b) \<longrightarrow> slots ! k' = Some (Addr b') \<longrightarrow> b < b')
    \<and> fds w' = fds w \<and> children w' = children w"
proof -
  define w2 where "w2 = snd (malloc os (length arr + 1) (called C_GetArrayLength w))"
  have m: "malloc os (length arr + 1) (called C_GetArrayLength w) = (Addr (brk w), w2)"
    using assms(1) by (simp add: w2_def malloc_def alloc_def called_def)
  have w2: "heap w2 (brk w) = Some (Ptrs (replicate (Suc (length arr)) None))"
    "brk w2 = Suc (brk w)" "requests w2 = Suc (requests w)"
    "\<forall>x. x \<noteq> brk w \<longrightarrow> heap w2 x = heap w x" "fds w2 = fds w" "children w2 = children w"
    using assms(1) by (simp_all add: w2_def malloc_def alloc_def called_def)
  have p5: "\<forall>k. 0 \<le> k \<longrightarrow> k < length arr \<longrightarrow> alloc_ok os (requests w2 + 2 * (k - 0))"
    using assms(2) w2(3) by simp
  have pre: "length (replicate (Suc (length arr)) (None :: ptr option)) = Suc (length arr)"
    "0 \<le> length arr" "brk w < brk w2"
    using w2(2) by simp_all
  from marshal_loop_spec [OF w2(1) pre p5]
  obtain w3 slots' where l:
    "marshal_loop os arr (Addr (brk w)) 0 w2 = Some w3"
    "heap w3 (brk w) = Some (Ptrs slots')" "length slots' = Suc (length arr)"
    "requests w3 = requests w2 + 2 * (length arr - 0)"
    "brk w2 \<le> brk w3"
    "\<forall>x. x \<noteq> brk w \<longrightarrow> x < brk w2 \<or> brk w3 \<le> x \<longrightarrow> heap w3 x = heap w2 x"
    "\<forall>k. k < 0 \<or> length arr \<le> k \<longrightarrow> slots' ! k = replicate (Suc (length arr)) None ! k"
    "\<forall>k. 0 \<le> k \<longrightarrow> k < length arr \<longrightarrow>
          (if alloc_ok os (requests w2 + 2 * (k - 0) + 1)
           then \<exists>b. slots' ! k = Some (Addr b) \<and> brk w2 \<le> b \<and> b < brk w3
                    \<and> heap w3 b = Some (Bytes (c_str (arr ! k) @ [NUL]))
           else slots' ! k = Some NULL)"
    "\<forall>x. brk w2 \<le> x \<longrightarrow> x < brk w3 \<longrightarrow> heap w3 x \<noteq> None \<longrightarrow>
          (\<exists>k. 0 \<le> k \<and> k < length arr \<and> slots' ! k = Some (Addr x))"
    "\<forall>k k' b b'. 0 \<le> k \<longrightarrow> k < k' \<longrightarrow> k' < length arr \<longrightarrow>
          slots' ! k = Some (Addr b) \<longrightarrow> slots' ! k' = Some (Addr b') \<longrightarrow> b < b'"
    "fds w3 = fds w2" "children w3 = children w2"
    by (elim exE conjE) (rule that; assumption)
  define slots where "slots = slots'[length arr := Some NULL]"
  define w4 where "w4 = w3\<lparr>heap := (heap w3)(brk w \<mapsto> Ptrs slots)\<rparr>"
  have st: "store (Addr (brk w)) (length arr) NULL w3 = Some w4"
    using l(2,3) by (simp add: store_def w4_def slots_def)
  have r: "marshal os arr w = Some (Addr (brk w), w4)"
    using m l(1) st by (simp add: marshal_def)
  have same: "slots ! k = slots' ! k" if "k < length arr" for k
    using that by (simp add: slots_def)
  have h4: "heap w4 x = heap w3 x" if "x \<noteq> brk w" for x
    using that by (simp add: w4_def)
  have c3: "heap w4 (brk w) = Some (Ptrs slots)" "length slots = Suc (length arr)"
    "slots ! length arr = Some NULL" "brk w4 = brk w3"
    using l(3) by (simp_all add: w4_def slots_def)
  have c5: "requests w4 = requests w + 1 + 2 * length arr"
    using l(4) w2(3) by (simp add: w4_def)
  have c6: "brk w < brk w4" using l(5) w2(2) c3(4) by simp
  have c7: "\<forall>x. x < brk w \<or> brk w4 \<le> x \<longrightarrow> heap w4 x = heap w x"
  proof (intro allI impI)
    fix x assume "x < brk w \<or> brk w4 \<le> x"
    then have x: "x \<noteq> brk w" "x < brk w2 \<or> brk w3 \<le> x" using c6 c3(4) w2(2) by auto
    have "heap w4 x = heap w3 x" using h4 x(1) by simp
    also have "heap w3 x = heap w2 x" using l(6) x by blast
    also have "heap w2 x = heap w x" using w2(4) x(1) by blast
    finally show "heap w4 x = heap w x" .
  qed
  have c8: "\<forall>k<length arr.
          (if alloc_ok os (requests w + 2 + 2 * k)
           then \<exists>b. slots ! k = Some (Addr b) \<and> brk w < b \<and> b < brk w4
                    \<and> heap w4 b = Some (Bytes (c_str (arr ! k) @ [NUL]))
           else slots ! k = Some NULL)"
  proof (intro allI impI)
    fix k assume k: "k < length arr"
    have eq: "requests w2 + 2 * (k - 0) + 1 = requests w + 2 + 2 * k" using w2(3) by simp
    from l(8) k eq have "if alloc_ok os (requests w + 2 + 2 * k)
           then \<exists>b. slots' ! k = Some (Addr b) \<and> brk w2 \<le> b \<and> b < brk w3
                    \<and> heap w3 b = Some (Bytes (c_str (arr ! k) @ [NUL]))
           else slots' ! k = Some NULL" by simp
    then show "if alloc_ok os (requests w + 2 + 2 * k)
           then \<exists>b. slots ! k = Some (Addr b) \<and> brk w < b \<and> b < brk w4
                    \<and> heap w4 b = Some (Bytes (c_str (arr ! k) @ [NUL]))
           else slots ! k = Some NULL"
      using same [OF k] w2(2) c3(4) h4 by (auto split: if_splits)
  qed
  have c9: "\<forall>x. brk w < x \<longrightarrow> x < brk w4 \<longrightarrow> heap w4 x \<noteq> None \<longrightarrow>
          (\<exists>k<length arr. slots ! k = Some (Addr x))"
  proof (intro allI impI)
    fix x assume x: "brk w < x" "x < brk w4" "heap w4 x \<noteq> None"
    then have "brk w2 \<le> x" "x < brk w3" "heap w3 x \<noteq> None"
      using w2(2) c3(4) h4 [of x] by simp_all
    with l(9) obtain k where "k < length arr" "slots' ! k = Some (Addr x)" by blast
    then show "\<exists>k<length arr. slots ! k = Some (Addr x)" using same by auto
  qed
  have c10: "\<forall>k k' b b'. k < k' \<longrightarrow> k' < length arr \<longrightarrow>
          slots ! k = Some (Addr b) \<longrightarrow> slots ! k' = Some (Addr b') \<longrightarrow> b < b'"
  proof (intro allI impI)
    fix k k' b b'
    assume a: "k < k'" "k' < length arr" "slots ! k = Some (Addr b)" "slots ! k' = Some (Addr b')"
    then have "slots' ! k = Some (Addr b)" "slots' ! k' = Some (Addr b')"
      using same [of k] same [of k'] by simp_all
    with l(10) a(1,2) show "b < b'" by blast
  qed
  have c11: "fds w4 = fds w" "children w4 = children w"
    using l(11,12) w2(5,6) by (simp_all add: w4_def)
  show ?thesis
    by (intro exI conjI) (rule r c3(1) c3(2) c3(3) c5 c6 c7 c8 c9 c10 c11)+
qed

lemma c_str_idem: "c_str (c_str s) = c_str s"
  by (simp add: c_str_def)

lemma read_slots_prefix:
  assumes "j < length slots" "slots ! j = Some NULL" "j \<le> length arr"
    "\<forall>k<j. \<exists>b. slots ! k = Some (Addr b) \<and> heap w b = Some (Bytes (c_str (arr ! k) @ [NUL]))"
  shows "read_slots w slots = Some (map c_str (take j arr))"
  using assms
proof (induction j arbitrary: slots arr)
  case 0
  then obtain xs where "slots = Some NULL # xs" by (cases slots) auto
  then show ?case by simp
next
  case (Suc j)
  from Suc.prems(1) obtain x xs where slots: "slots = x # xs" by (cases slots) auto
  from Suc.prems(3) obtain a as where arr: "arr = a # as" by (cases arr) auto
  from Suc.prems(4) obtain b where b: "x = Some (Addr b)" "heap w b = Some (Bytes (c_str a @ [NUL]))"
    using slots arr by fastforce
  have rest: "\<forall>k<j. \<exists>b. xs ! k = Some (Addr b) \<and> heap w b = Some (Bytes (c_str (as ! k) @ [NUL]))"
  proof (intro allI impI)
    fix k assume "k < j"
    then have "Suc k < Suc j" by simp
    with Suc.prems(4) show "\<exists>b. xs ! k = Some (Addr b) \<and> heap w b = Some (Bytes (c_str (as ! k) @ [NUL]))"
      using slots arr by fastforce
  qed
  have "read_slots w xs = Some (map c_str (take j as))"
    using Suc.IH [OF _ _ _ rest] Suc.prems(1,2,3) slots arr by simp
  then show ?case
    using b slots arr by (simp add: read_str_def c_str_append_NUL c_str_idem)
qed

subsection \<open>The calls of a run\<close>

lemma calls_sinceI: "trace w' = trace w @ es \<Longrightarrow> calls_since w w' = es"
  by (simp add: calls_since_def)

lemma trace_called: "trace (called c w) = trace w @ [c]"
  by (simp add: called_def)

lemma trace_alloc: "alloc os b w = (p, w') \<Longrightarrow> trace w' = trace w"
  by (auto simp add: alloc_def split: if_splits)

lemma trace_GetStringUTFChars:
  "GetStringUTFChars os s w = (p, w') \<Longrightarrow> trace w' = trace w @ [C_GetStringUTFChars]"
  by (auto simp add: GetStringUTFChars_def trace_called dest: trace_alloc)

lemma trace_malloc: "malloc os n w = (p, w') \<Longrightarrow> trace w' = trace w @ [C_malloc]"
  by (auto simp add: malloc_def trace_called dest: trace_alloc)

lemma trace_strdup: "strdup os p w = Some (d, w') \<Longrightarrow> trace w' = trace w @ [C_strdup]"
  by (auto simp add: strdup_def trace_called dest: trace_alloc split: option.splits)

lemma trace_store: "store vec i d w = Some w' \<Longrightarrow> trace w' = trace w"
  by (auto simp add: store_def split: ptr.splits option.splits block.splits if_splits)

lemma trace_Release:
  "trace (ReleaseStringUTFChars p w) = trace w @ [C_ReleaseStringUTFChars]"
  by (simp add: ReleaseStringUTFChars_def Let_def trace_called split: ptr.splits)

lemma marshal_loop_trace:
  "marshal_loop os arr vec i w = Some w' \<Longrightarrow>
   \<exists>es. trace w' = trace w @ es
      \<and> set es \<subseteq> {C_GetObjectArrayElement, C_GetStringUTFChars, C_strdup, C_ReleaseStringUTFChars}"
proof (induction os arr vec i w rule: marshal_loop.induct)
  case (1 os arr vec i w)
  show ?case
  proof (cases "i < length arr")
    case False
    with "1.prems" have "w' = w" by (simp add: marshal_loop.simps)
    then show ?thesis by simp
  next
    case True
    obtain str w2 where g: "GetStringUTFChars os (arr ! i) (called C_GetObjectArrayElement w) = (str, w2)"
      by (cases "GetStringUTFChars os (arr ! i) (called C_GetObjectArrayElement w)")
    from "1.prems" True g obtain d w3 where sd: "strdup os str w2 = Some (d, w3)"
      by (subst (asm) marshal_loop.simps) (auto split: option.splits)
    from "1.prems" True g sd obtain w4 where st: "store vec i d w3 = Some w4"
      by (subst (asm) marshal_loop.simps) (auto split: option.splits)
    from "1.prems" True g sd st
    have rec: "marshal_loop os arr vec (Suc i) (ReleaseStringUTFChars str w4) = Some w'"
      by (subst (asm) marshal_loop.simps) simp
    from "1.IH" [OF True refl refl refl g [symmetric] sd refl st rec]
    obtain es where es: "trace w' = trace (ReleaseStringUTFChars str w4) @ es"
      "set es \<subseteq> {C_GetObjectArrayElement, C_GetStringUTFChars, C_strdup, C_ReleaseStringUTFChars}"
      by blast
    have "trace (ReleaseStringUTFChars str w4)
          = trace w @ [C_GetObjectArrayElement, C_GetStringUTFChars, C_strdup, C_ReleaseStringUTFChars]"
      using trace_GetStringUTFChars [OF g] trace_strdup [OF sd] trace_store [OF st]
      by (simp add: trace_Release trace_called)
    with es show ?thesis by simp
  qed
qed

lemma marshal_trace:
  assumes "marshal os arr w = Some (vec, w')"
  shows "\<exists>es. trace w' = trace w @ C_GetArrayLength # C_malloc # es
      \<and> set es \<subseteq> {C_GetObjectArrayElement, C_GetStringUTFChars, C_strdup, C_ReleaseStringUTFChars}"
proof -
  obtain v w2 where m: "malloc os (length arr + 1) (called C_GetArrayLength w) = (v, w2)"
    by (cases "malloc os (length arr + 1) (called C_GetArrayLength w)")
  from assms m obtain w3 where l: "marshal_loop os arr v 0 w2 = Some w3"
    by (auto simp add: marshal_def split: option.splits)
  from assms m l have st: "store v (length arr) NULL w3 = Some w'"
    by (auto simp add: marshal_def split: option.splits)
  from marshal_loop_trace [OF l] obtain es where es: "trace w3 = trace w2 @ es"
    "set es \<subseteq> {C_GetObjectArrayElement, C_GetStringUTFChars, C_strdup, C_ReleaseStringUTFChars}"
    by blast
  have "trace w' = trace w @ C_GetArrayLength # C_malloc # es"
    using trace_store [OF st] es(1) trace_malloc [OF m] by (simp add: trace_called)
  with es(2) show ?thesis by blast
qed


lemma execvpe_cases:
  assumes "execvpe os file argv envp w = (r, w')"
  shows "(r = Undefined_behaviour \<and> w' = w)
     \<or> ((\<exists>name args e. r = Child_executed name args e \<and> exec_ok os name args e)
         \<and> trace w' = trace w @ [C_execvpe True])
     \<or> (r = Child_exited 1 \<and> trace w' = trace w @ [C_execvpe False, C_log, C_exit 1])"
  using assms
  by (auto simp add: execvpe_def trace_called split: option.splits if_splits)

lemma marshal_trace_calls:
  assumes "marshal os arr w = Some (vec, w')"
  shows "\<exists>es. trace w' = trace w @ es \<and> set es \<subseteq> marshal_calls \<and> C_malloc \<in> set es"
proof -
  from marshal_trace [OF assms] obtain es where
    "trace w' = trace w @ C_GetArrayLength # C_malloc # es"
    "set es \<subseteq> {C_GetObjectArrayElement, C_GetStringUTFChars, C_strdup, C_ReleaseStringUTFChars}"
    by blast
  then have "trace w' = trace w @ (C_GetArrayLength # C_malloc # es)
    \<and> set (C_GetArrayLength # C_malloc # es) \<subseteq> marshal_calls
    \<and> C_malloc \<in> set (C_GetArrayLength # C_malloc # es)"
    by (auto simp add: marshal_calls_def)
  then show ?thesis by blast
qed

lemma child_cases:
  assumes "child os cmdarray envarray workingDir w = (r, w')"
  shows "(r = Child_exited 1
          \<and> trace w' = trace w @ [C_GetStringUTFChars, C_chdir False, C_log, C_exit 1])
     \<or> (\<exists>es. set es \<subseteq> marshal_calls \<and>
          ((r = Undefined_behaviour
            \<and> trace w' = trace w @ [C_GetStringUTFChars, C_chdir True, C_ReleaseStringUTFChars] @ es)
         \<or> ((\<exists>name args e. r = Child_executed name args e \<and> exec_ok os name args e)
            \<and> C_malloc \<in> set es
            \<and> trace w' = trace w @ [C_GetStringUTFChars, C_chdir True, C_ReleaseStringUTFChars]
                 @ es @ [C_execvpe True])
         \<or> (r = Child_exited 1 \<and> C_malloc \<in> set es
            \<and> trace w' = trace w @ [C_GetStringUTFChars, C_chdir True, C_ReleaseStringUTFChars]
                 @ es @ [C_execvpe False, C_log, C_exit 1])))"
proof -
  obtain cwd w1 where g: "GetStringUTFChars os workingDir w = (cwd, w1)"
    by (cases "GetStringUTFChars os workingDir w")
  define entered where
    "entered = (case read_str w1 cwd of None \<Rightarrow> False | Some path \<Rightarrow> chdir_ok os path)"
  define w3 where "w3 = ReleaseStringUTFChars cwd (called (C_chdir entered) w1)"
  have t1: "trace w1 = trace w @ [C_GetStringUTFChars]" by (rule trace_GetStringUTFChars [OF g])
  show ?thesis
  proof (cases entered)
    case False
    with assms g have "r = Child_exited 1"
      "w' = called (C_exit 1) (called C_log (called (C_chdir False) w1))"
      by (simp_all add: child_def entered_def Let_def)
    with t1 show ?thesis by (simp add: trace_called)
  next
    case True
    have t3: "trace w3 = trace w @ [C_GetStringUTFChars, C_chdir True, C_ReleaseStringUTFChars]"
      using True t1 by (simp add: w3_def trace_Release trace_called)
    have w3': "w3 = ReleaseStringUTFChars cwd (called (C_chdir True) w1)"
      using True by (simp add: w3_def)
    from assms g True have run: "(r, w') =
        (case marshal os envarray w3 of
           None \<Rightarrow> (Undefined_behaviour, w3)
         | Some (envp, w4) \<Rightarrow>
             (case marshal os cmdarray w4 of
                None \<Rightarrow> (Undefined_behaviour, w4)
              | Some (argv, w5) \<Rightarrow> execvpe os (load w5 argv 0) argv envp w5))"
      unfolding w3' by (simp add: child_def entered_def Let_def)
    show ?thesis
    proof (cases "marshal os envarray w3")
      case None
      with run have "r = Undefined_behaviour" "w' = w3" by simp_all
      with t3 have "set [] \<subseteq> marshal_calls \<and> r = Undefined_behaviour
        \<and> trace w' = trace w @ [C_GetStringUTFChars, C_chdir True, C_ReleaseStringUTFChars] @ []"
        by simp
      then show ?thesis by blast
    next
      case (Some a)
      then obtain envp w4 where m1: "marshal os envarray w3 = Some (envp, w4)" by (cases a) simp
      from marshal_trace_calls [OF m1] obtain es1 where e1: "trace w4 = trace w3 @ es1"
        "set es1 \<subseteq> marshal_calls" "C_malloc \<in> set es1" by blast
      show ?thesis
      proof (cases "marshal os cmdarray w4")
        case None
        with run m1 have "r = Undefined_behaviour" "w' = w4" by simp_all
        with t3 e1 have "set es1 \<subseteq> marshal_calls \<and> r = Undefined_behaviour
          \<and> trace w' = trace w @ [C_GetStringUTFChars, C_chdir True, C_ReleaseStringUTFChars] @ es1"
          by simp
        then show ?thesis by blast
      next
        case (Some b)
        then obtain argv w5 where m2: "marshal os cmdarray w4 = Some (argv, w5)" by (cases b) simp
        from marshal_trace_calls [OF m2] obtain es2 where e2: "trace w5 = trace w4 @ es2"
          "set es2 \<subseteq> marshal_calls" "C_malloc \<in> set es2" by blast
        have t5: "trace w5 = trace w @ [C_GetStringUTFChars, C_chdir True, C_ReleaseStringUTFChars]
                    @ (es1 @ es2)"
          using t3 e1(1) e2(1) by simp
        have es: "set (es1 @ es2) \<subseteq> marshal_calls" "C_malloc \<in> set (es1 @ es2)"
          using e1 e2 by simp_all
        from run m1 m2 have ex: "execvpe os (load w5 argv 0) argv envp w5 = (r, w')" by simp
        from execvpe_cases [OF ex] show ?thesis
        proof (elim disjE conjE)
          assume "r = Undefined_behaviour" "w' = w5"
          with t5 es(1) have "set (es1 @ es2) \<subseteq> marshal_calls \<and> r = Undefined_behaviour
            \<and> trace w' = trace w @ [C_GetStringUTFChars, C_chdir True, C_ReleaseStringUTFChars]
                 @ (es1 @ es2)" by simp
          then show ?thesis by blast
        next
          assume a: "\<exists>name args e. r = Child_executed name args e \<and> exec_ok os name args e"
            "trace w' = trace w5 @ [C_execvpe True]"
          with t5 es have "set (es1 @ es2) \<subseteq> marshal_calls
            \<and> (\<exists>name args e. r = Child_executed name args e \<and> exec_ok os name args e)
            \<and> C_malloc \<in> set (es1 @ es2)
            \<and> trace w' = trace w @ [C_GetStringUTFChars, C_chdir True, C_ReleaseStringUTFChars]
                 @ (es1 @ es2) @ [C_execvpe True]" by simp
          then show ?thesis by blast
        next
          assume a: "r = Child_exited 1" "trace w' = trace w5 @ [C_execvpe False, C_log, C_exit 1]"
          with t5 es have "set (es1 @ es2) \<subseteq> marshal_calls
            \<and> r = Child_exited 1 \<and> C_malloc \<in> set (es1 @ es2)
            \<and> trace w' = trace w @ [C_GetStringUTFChars, C_chdir True, C_ReleaseStringUTFChars]
                 @ (es1 @ es2) @ [C_execvpe False, C_log, C_exit 1]" by simp
          then show ?thesis by blast
        qed
      qed
    qed
  qed
qed

subsection \<open>The calling process\<close>

lemma forkpty_no_pty:
  assumes "openpty_out os = None"
  shows "forkpty os t w = (- 1, None, called (C_forkpty t) w)"
  using assms by (simp add: forkpty_def)

lemma forkpty_fork_failed:
  assumes "openpty_out os = Some (pty, tty)" "fork_out os = - 1" "pty \<notin> fds w" "tty \<notin> fds w"
  shows "forkpty os t w = (- 1, None, called (C_forkpty t) w)"
proof -
  have "fds w \<union> {pty, tty} - {pty, tty} = fds w" using assms(3,4) by auto
  then show ?thesis using assms(1,2) by (simp add: forkpty_def called_def Let_def)
qed

lemma forkpty_child:
  assumes "openpty_out os = Some (pty, tty)" "fork_out os = 0"
  shows "\<exists>w1. forkpty os t w = (0, None, w1) \<and> trace w1 = trace w @ [C_forkpty t]"
  using assms by (simp add: forkpty_def called_def Let_def)

lemma forkpty_parent:
  assumes "openpty_out os = Some (pty, tty)" "0 < fork_out os" "pty \<noteq> tty" "tty \<notin> fds w"
  shows "\<exists>w1. forkpty os t w = (fork_out os, Some pty, w1)
    \<and> trace w1 = trace w @ [C_forkpty t] \<and> fds w1 = insert pty (fds w)
    \<and> children w1 = insert (fork_out os) (children w) \<and> heap w1 = heap w"
proof -
  have "fds w \<union> {pty, tty} - {tty} = insert pty (fds w)" using assms(3,4) by auto
  then show ?thesis using assms(1,2) by (simp add: forkpty_def called_def Let_def)
qed

lemma createSubprocess_forkpty_failed:
  assumes "platform_contract os w" "openpty_out os = None \<or> fork_out os = - 1"
  shows "createSubprocess os cmdarray envarray workingDir w
         = (Returned None, called C_log (called (C_forkpty tt) w))"
proof (cases "openpty_out os")
  case None
  then show ?thesis by (simp add: createSubprocess_def forkpty_no_pty)
next
  case (Some a)
  then obtain pty tty where o: "openpty_out os = Some (pty, tty)" by (cases a) simp
  with assms have "fork_out os = - 1" "pty \<notin> fds w" "tty \<notin> fds w"
    by (simp_all add: platform_contract_def)
  from forkpty_fork_failed [OF o this] show ?thesis by (simp add: createSubprocess_def)
qed

lemma createSubprocess_parent:
  assumes "platform_contract os w" "openpty_out os = Some (pty, tty)" "0 < fork_out os"
  shows "\<exists>w1. createSubprocess os cmdarray envarray workingDir w = parent os (fork_out os) pty w1
    \<and> trace w1 = trace w @ [C_forkpty tt] \<and> fds w1 = insert pty (fds w)
    \<and> children w1 = insert (fork_out os) (children w) \<and> heap w1 = heap w"
proof -
  from assms(1,2) have "pty \<noteq> tty" "tty \<notin> fds w" by (simp_all add: platform_contract_def)
  from forkpty_parent [OF assms(2,3) this, of tt] obtain w1 where
    w1: "forkpty os tt w = (fork_out os, Some pty, w1)"
    "trace w1 = trace w @ [C_forkpty tt]" "fds w1 = insert pty (fds w)"
    "children w1 = insert (fork_out os) (children w)" "heap w1 = heap w"
    by blast
  have "createSubprocess os cmdarray envarray workingDir w = parent os (fork_out os) pty w1"
    using w1(1) assms(3) by (simp add: createSubprocess_def)
  with w1 show ?thesis by blast
qed

lemma createSubprocess_child:
  assumes "openpty_out os = Some (pty, tty)" "fork_out os = 0"
  shows "\<exists>w1. createSubprocess os cmdarray envarray workingDir w
               = child os cmdarray envarray workingDir w1
    \<and> trace w1 = trace w @ [C_forkpty tt]"
proof -
  from forkpty_child [OF assms, of tt w] obtain w1 where
    w1: "forkpty os tt w = (0, None, w1)" "trace w1 = trace w @ [C_forkpty tt]" by blast
  then have "createSubprocess os cmdarray envarray workingDir w
      = child os cmdarray envarray workingDir w1"
    by (simp add: createSubprocess_def)
  with w1(2) show ?thesis by blast
qed

lemma parent_result:
  "parent os pid fd w =
     (if NewIntArray_ok os
      then (Returned (Some [pid, fd]), called C_SetIntArrayRegion (called C_NewIntArray w))
      else (Returned None, called C_NewIntArray w))"
  by (simp add: parent_def SetIntArrayRegion_def Let_def numeral_2_eq_2)

text \<open>
  C5. When \<open>forkpty\<close> fails, because no descriptor pair could be obtained or because
  \<open>fork\<close> failed, \<open>createSubprocess\<close> returns \<open>NULL\<close> at once: it logs and makes no other
  call. No process has been created, the descriptors that are open are those that were
  open before (the pair obtained before a failed \<open>fork\<close> has been closed inside
  \<open>forkpty\<close>), and nothing has been allocated.
\<close>

theorem forkpty_failure_reported:
  assumes "platform_contract os w" "openpty_out os = None \<or> fork_out os = - 1"
  shows "\<exists>w'. createSubprocess os cmdarray envarray workingDir w = (Returned None, w')
    \<and> children w' = children w \<and> fds w' = fds w \<and> heap w' = heap w
    \<and> calls_since w w' = [C_forkpty tt, C_log]"
  using createSubprocess_forkpty_failed [OF assms]
  by (simp add: called_def calls_since_def)

theorem forkpty_failure_reported_witness:
  "platform_contract (platform0\<lparr>fork_out := - 1\<rparr>) world0
   \<and> fork_out (platform0\<lparr>fork_out := - 1\<rparr>) = - 1
   \<and> fst (createSubprocess (platform0\<lparr>fork_out := - 1\<rparr>) [''/bin/echo'', ''hello''] [] ''/'' world0)
       = Returned None
   \<and> fds (snd (createSubprocess (platform0\<lparr>fork_out := - 1\<rparr>) [''/bin/echo'', ''hello''] [] ''/'' world0))
       = {0, 1, 2}
   \<and> children (snd (createSubprocess (platform0\<lparr>fork_out := - 1\<rparr>) [''/bin/echo'', ''hello''] [] ''/'' world0))
       = {}"
proof -
  have c: "platform_contract (platform0\<lparr>fork_out := - 1\<rparr>) world0"
    by (simp add: platform_contract_def platform0_def world0_def)
  have f: "openpty_out (platform0\<lparr>fork_out := - 1\<rparr>) = None \<or> fork_out (platform0\<lparr>fork_out := - 1\<rparr>) = - 1"
    by simp
  from forkpty_failure_reported [OF c f, of "[''/bin/echo'', ''hello'']" "[]" "''/''"]
  obtain w' where "createSubprocess (platform0\<lparr>fork_out := - 1\<rparr>) [''/bin/echo'', ''hello''] [] ''/'' world0
      = (Returned None, w')" "children w' = children world0" "fds w' = fds world0"
    by blast
  with c show ?thesis by (simp add: world0_def)
qed

lemmas run_defs = createSubprocess_def forkpty_def child_def parent_def marshal_def
  marshal_loop.simps GetStringUTFChars_def ReleaseStringUTFChars_def alloc_def called_def
  read_str_def c_str_def NUL_def malloc_def strdup_def store_def load_def execvpe_def
  read_vec_def SetIntArrayRegion_def calls_since_def platform_contract_def
  platform0_def world0_def always_def all_but_def only_root_def only_echo_def Let_def

text \<open>
  C10. When \<open>forkpty\<close> succeeded in the calling process and the \<open>int[2]\<close> cannot be
  allocated, \<open>createSubprocess\<close> returns \<open>NULL\<close>, as it does when \<open>forkpty\<close> fails, although
  the child exists and the master descriptor, which was not open before, is open: after
  \<open>forkpty\<close> the only call is \<open>NewIntArray\<close>. A \<open>NULL\<close> result does not tell that no process
  was created.
\<close>

theorem result_array_failure_returns_NULL:
  assumes "platform_contract os w" "openpty_out os = Some (pty, tty)" "0 < fork_out os"
    "\<not> NewIntArray_ok os"
  shows "\<exists>w'. createSubprocess os cmdarray envarray workingDir w = (Returned None, w')
    \<and> children w' = insert (fork_out os) (children w)
    \<and> fds w' = insert pty (fds w) \<and> pty \<notin> fds w
    \<and> calls_since w w' = [C_forkpty tt, C_NewIntArray]"
proof -
  from createSubprocess_parent [OF assms(1,2,3)] obtain w1 where
    w1: "createSubprocess os cmdarray envarray workingDir w = parent os (fork_out os) pty w1"
    "trace w1 = trace w @ [C_forkpty tt]" "fds w1 = insert pty (fds w)"
    "children w1 = insert (fork_out os) (children w)"
    by blast
  have "pty \<notin> fds w" using assms(1,2) by (simp add: platform_contract_def)
  with w1 assms(4) show ?thesis
    by (simp add: parent_result called_def calls_since_def)
qed

theorem result_array_failure_returns_NULL_witness:
  "platform_contract (platform0\<lparr>NewIntArray_ok := False\<rparr>) world0
   \<and> fst (createSubprocess (platform0\<lparr>NewIntArray_ok := False\<rparr>) [''/bin/echo'', ''hello''] []
        ''/'' world0) = Returned None
   \<and> 1234 \<in> children (snd (createSubprocess (platform0\<lparr>NewIntArray_ok := False\<rparr>)
        [''/bin/echo'', ''hello''] [] ''/'' world0))
   \<and> 5 \<in> fds (snd (createSubprocess (platform0\<lparr>NewIntArray_ok := False\<rparr>)
        [''/bin/echo'', ''hello''] [] ''/'' world0))
   \<and> 5 \<notin> fds world0"
proof -
  let ?os = "platform0\<lparr>NewIntArray_ok := False\<rparr>"
  have c: "platform_contract ?os world0"
    by (simp add: platform_contract_def platform0_def world0_def)
  have o: "openpty_out ?os = Some (5, 6)" "0 < fork_out ?os" "\<not> NewIntArray_ok ?os"
    by (simp_all add: platform0_def)
  from result_array_failure_returns_NULL [OF c o, of "[''/bin/echo'', ''hello'']" "[]" "''/''"]
  obtain w' where "createSubprocess ?os [''/bin/echo'', ''hello''] [] ''/'' world0 = (Returned None, w')"
    "children w' = insert (fork_out ?os) (children world0)" "fds w' = insert 5 (fds world0)"
    "5 \<notin> fds world0"
    by blast
  with c show ?thesis by (simp add: platform0_def)
qed

text \<open>
  C1, as stated, fails: on a platform that keeps its promises, with \<open>fork\<close> returning
  1234, the master descriptor 5 and no room for the \<open>int[2]\<close>, the result is \<open>NULL\<close>, and
  yet the process has a child it did not have and a descriptor open that was not.
\<close>

theorem createSubprocess_NULL_with_child_counterexample:
  "platform_contract (platform0\<lparr>NewIntArray_ok := False\<rparr>) world0
   \<and> fst (createSubprocess (platform0\<lparr>NewIntArray_ok := False\<rparr>) [''/bin/echo'', ''hello''] []
        ''/'' world0) = Returned None
   \<and> children world0 = {}
   \<and> children (snd (createSubprocess (platform0\<lparr>NewIntArray_ok := False\<rparr>)
        [''/bin/echo'', ''hello''] [] ''/'' world0)) = {1234}
   \<and> fds world0 = {0, 1, 2}
   \<and> fds (snd (createSubprocess (platform0\<lparr>NewIntArray_ok := False\<rparr>)
        [''/bin/echo'', ''hello''] [] ''/'' world0)) = {5, 0, 1, 2}"
  by (auto simp add: run_defs)

text \<open>
  C1, amended. In the calling process \<open>createSubprocess\<close> returns to its caller, and
  returns either an \<open>int[2]\<close> holding a process identifier \<open>> 0\<close> and a master descriptor
  \<open>\<ge> 0\<close>, the child and the descriptor being new, or \<open>NULL\<close>. \<open>NULL\<close> is returned only
  when \<open>forkpty\<close> failed or the \<open>int[2]\<close> could not be allocated; when \<open>forkpty\<close> failed,
  no process was created and no descriptor is left open.
\<close>

theorem createSubprocess_outcomes:
  assumes "platform_contract os w" "openpty_out os = None \<or> fork_out os \<noteq> 0"
  shows "\<exists>r w'. createSubprocess os cmdarray envarray workingDir w = (Returned r, w')
    \<and> (\<forall>h. r = Some h \<longrightarrow>
          (\<exists>pid fd. h = [pid, fd] \<and> 0 < pid \<and> 0 \<le> fd
             \<and> children w' = insert pid (children w) \<and> fds w' = insert fd (fds w)))
    \<and> (openpty_out os = None \<or> fork_out os = - 1 \<longrightarrow>
          r = None \<and> children w' = children w \<and> fds w' = fds w)
    \<and> (r = None \<longrightarrow> openpty_out os = None \<or> fork_out os = - 1 \<or> \<not> NewIntArray_ok os)"
proof (cases "openpty_out os = None \<or> fork_out os = - 1")
  case True
  from createSubprocess_forkpty_failed [OF assms(1) True] True show ?thesis
    by (auto simp add: called_def)
next
  case False
  then obtain pty tty where o: "openpty_out os = Some (pty, tty)" by auto
  from False assms have pos: "0 < fork_out os" by (auto simp add: platform_contract_def)
  from assms(1) o have fd: "0 \<le> pty" by (simp add: platform_contract_def)
  from createSubprocess_parent [OF assms(1) o pos] obtain w1 where
    w1: "createSubprocess os cmdarray envarray workingDir w = parent os (fork_out os) pty w1"
    "fds w1 = insert pty (fds w)" "children w1 = insert (fork_out os) (children w)"
    by blast
  show ?thesis
  proof (cases "NewIntArray_ok os")
    case True
    with w1 pos fd False o show ?thesis by (simp add: parent_result called_def)
  next
    case no: False
    with w1 False o show ?thesis by (simp add: parent_result called_def)
  qed
qed

theorem createSubprocess_outcomes_witness:
  "platform_contract platform0 world0 \<and> fork_out platform0 \<noteq> 0
   \<and> fst (createSubprocess platform0 [''/bin/echo'', ''hello''] [] ''/'' world0)
       = Returned (Some [1234, 5])
   \<and> platform_contract (platform0\<lparr>openpty_out := None\<rparr>) world0
   \<and> openpty_out (platform0\<lparr>openpty_out := None\<rparr>) = None
   \<and> fst (createSubprocess (platform0\<lparr>openpty_out := None\<rparr>) [''/bin/echo'', ''hello''] [] ''/'' world0)
       = Returned None
   \<and> fds (snd (createSubprocess (platform0\<lparr>openpty_out := None\<rparr>) [''/bin/echo'', ''hello''] [] ''/'' world0))
       = fds world0"
proof -
  let ?cmd = "[''/bin/echo'', ''hello'']"
  have c1: "platform_contract platform0 world0"
    by (simp add: platform_contract_def platform0_def world0_def)
  have f1: "openpty_out platform0 = None \<or> fork_out platform0 \<noteq> 0" by (simp add: platform0_def)
  from createSubprocess_outcomes [OF c1 f1, of ?cmd "[]" "''/''"]
  obtain r w' where a: "createSubprocess platform0 ?cmd [] ''/'' world0 = (Returned r, w')"
    "\<forall>h. r = Some h \<longrightarrow> (\<exists>pid fd. h = [pid, fd] \<and> 0 < pid \<and> 0 \<le> fd
             \<and> children w' = insert pid (children world0) \<and> fds w' = insert fd (fds world0))"
    "r = None \<longrightarrow> openpty_out platform0 = None \<or> fork_out platform0 = - 1 \<or> \<not> NewIntArray_ok platform0"
    by blast
  from a(3) obtain h where h: "r = Some h" by (cases r) (simp_all add: platform0_def)
  with a(2) obtain pid fd where pf: "h = [pid, fd]" "children w' = insert pid (children world0)"
    "fds w' = insert fd (fds world0)" by blast
  have e1: "fst (createSubprocess platform0 ?cmd [] ''/'' world0) = Returned (Some [1234, 5])"
    by (simp add: run_defs)
  let ?os = "platform0\<lparr>openpty_out := None\<rparr>"
  have c2: "platform_contract ?os world0"
    by (simp add: platform_contract_def platform0_def world0_def)
  have f2: "openpty_out ?os = None \<or> fork_out ?os \<noteq> 0" by simp
  from createSubprocess_outcomes [OF c2 f2, of ?cmd "[]" "''/''"]
  obtain r2 w2 where b: "createSubprocess ?os ?cmd [] ''/'' world0 = (Returned r2, w2)"
    "openpty_out ?os = None \<or> fork_out ?os = - 1 \<longrightarrow>
          r2 = None \<and> children w2 = children world0 \<and> fds w2 = fds world0"
    by blast
  then have "r2 = None" "fds w2 = fds world0" by simp_all
  with b(1) c1 c2 e1 show ?thesis by (simp add: platform0_def)
qed

subsection \<open>The terminal profile and the child\<close>

lemma trace_forkpty: "forkpty os t w = (pid, m, w1) \<Longrightarrow> trace w1 = trace w @ [C_forkpty t]"
  by (auto simp add: forkpty_def called_def Let_def split: option.splits if_splits)

lemma child_trace_extends:
  assumes "child os cmdarray envarray workingDir w = (r, w')"
  shows "\<exists>es. trace w' = trace w @ es"
  using child_cases [OF assms] by auto

lemma createSubprocess_first_call:
  "\<exists>es. trace (snd (createSubprocess os cmdarray envarray workingDir w)) = trace w @ C_forkpty tt # es"
proof -
  obtain pid m w1 where f: "forkpty os tt w = (pid, m, w1)" by (cases "forkpty os tt w")
  have t1: "trace w1 = trace w @ [C_forkpty tt]" by (rule trace_forkpty [OF f])
  consider "pid < 0" | "pid = 0" | "0 < pid" by linarith
  then show ?thesis
  proof cases
    case 1
    with f t1 show ?thesis by (simp add: createSubprocess_def called_def)
  next
    case 2
    obtain r w' where c: "child os cmdarray envarray workingDir w1 = (r, w')"
      by (cases "child os cmdarray envarray workingDir w1")
    from child_trace_extends [OF c] t1 obtain es where "trace w' = trace w @ C_forkpty tt # es"
      by auto
    with f 2 c show ?thesis by (simp add: createSubprocess_def)
  next
    case 3
    with f t1 show ?thesis
      by (cases m) (simp_all add: createSubprocess_def parent_result called_def)
  qed
qed

text \<open>
  C8. The terminal profile is a constant: it depends on no input. Its local flags have
  canonical mode and echo set, and its control characters are bound to the usual codes:
  interrupt Ctrl-C (3), quit Ctrl-backslash (28), erase DEL (127), kill Ctrl-U (21), end of
  file Ctrl-D (4), stop Ctrl-S (19), suspend Ctrl-Z (26), start Ctrl-Q (17), minimum
  read count 1, read timeout 0. Whatever its arguments and whatever the platform
  answers, the first call of \<open>createSubprocess\<close> is \<open>forkpty\<close> with this profile.
\<close>

theorem terminal_profile_fixed:
  "c_lflag tt AND ICANON = ICANON \<and> c_lflag tt AND ECHO = ECHO
   \<and> length (c_cc tt) = NCCS
   \<and> c_cc tt ! VINTR = 0x03 \<and> c_cc tt ! VQUIT = 0x1C \<and> c_cc tt ! VERASE = 0x7F
   \<and> c_cc tt ! VKILL = 0x15 \<and> c_cc tt ! VEOF = 0x04 \<and> c_cc tt ! VSTOP = 0x13
   \<and> c_cc tt ! VSUSP = 0x1A \<and> c_cc tt ! VSTART = 0x11 \<and> c_cc tt ! VMIN = 1
   \<and> c_cc tt ! VTIME = 0
   \<and> (\<exists>es. trace (snd (createSubprocess os cmdarray envarray workingDir w))
             = trace w @ C_forkpty tt # es)"
proof -
  have "c_lflag tt AND ICANON = ICANON" "c_lflag tt AND ECHO = ECHO"
    by (simp_all add: tt_flags ICANON_def ECHO_def)
  moreover have "length (c_cc tt) = NCCS" by (simp add: tt_cc NCCS_def)
  moreover have "c_cc tt ! VINTR = 0x03" "c_cc tt ! VQUIT = 0x1C" "c_cc tt ! VERASE = 0x7F"
    "c_cc tt ! VKILL = 0x15" "c_cc tt ! VEOF = 0x04" "c_cc tt ! VSTOP = 0x13"
    "c_cc tt ! VSUSP = 0x1A" "c_cc tt ! VSTART = 0x11" "c_cc tt ! VMIN = 1" "c_cc tt ! VTIME = 0"
    by (simp_all add: tt_cc VINTR_def VQUIT_def VERASE_def VKILL_def VEOF_def VSTOP_def
        VSUSP_def VSTART_def VMIN_def VTIME_def)
  ultimately show ?thesis using createSubprocess_first_call by blast
qed

lemma marshal_calls_only:
  assumes "set es \<subseteq> marshal_calls"
  shows "C_chdir b \<notin> set es" "C_execvpe b \<notin> set es" "C_log \<notin> set es" "C_exit n \<notin> set es"
    "C_forkpty t \<notin> set es"
  using assms by (auto simp add: marshal_calls_def)

lemma createSubprocess_child_cases:
  assumes "openpty_out os = Some (pty, tty)" "fork_out os = 0"
    and "createSubprocess os cmdarray envarray workingDir w = (r, w')"
  shows "(r = Child_exited 1
          \<and> calls_since w w' = [C_forkpty tt, C_GetStringUTFChars, C_chdir False, C_log, C_exit 1])
     \<or> (\<exists>es. set es \<subseteq> marshal_calls \<and>
          ((r = Undefined_behaviour
            \<and> calls_since w w'
                = [C_forkpty tt, C_GetStringUTFChars, C_chdir True, C_ReleaseStringUTFChars] @ es)
         \<or> ((\<exists>name args e. r = Child_executed name args e \<and> exec_ok os name args e)
            \<and> C_malloc \<in> set es
            \<and> calls_since w w'
                = [C_forkpty tt, C_GetStringUTFChars, C_chdir True, C_ReleaseStringUTFChars]
                  @ es @ [C_execvpe True])
         \<or> (r = Child_exited 1 \<and> C_malloc \<in> set es
            \<and> calls_since w w'
                = [C_forkpty tt, C_GetStringUTFChars, C_chdir True, C_ReleaseStringUTFChars]
                  @ es @ [C_execvpe False, C_log, C_exit 1])))"
proof -
  from createSubprocess_child [OF assms(1,2), of cmdarray envarray workingDir w] assms(3)
  obtain w1 where w1: "child os cmdarray envarray workingDir w1 = (r, w')"
    "trace w1 = trace w @ [C_forkpty tt]" by auto
  have cs: "calls_since w w' = C_forkpty tt # xs" if "trace w' = trace w1 @ xs" for xs
    using that w1(2) by (simp add: calls_since_def)
  from child_cases [OF w1(1)] consider
      (chdir) "r = Child_exited 1"
        "trace w' = trace w1 @ [C_GetStringUTFChars, C_chdir False, C_log, C_exit 1]"
    | (undefined) es where "set es \<subseteq> marshal_calls" "r = Undefined_behaviour"
        "trace w' = trace w1 @ [C_GetStringUTFChars, C_chdir True, C_ReleaseStringUTFChars] @ es"
    | (executed) es where "set es \<subseteq> marshal_calls"
        "\<exists>name args e. r = Child_executed name args e \<and> exec_ok os name args e"
        "C_malloc \<in> set es"
        "trace w' = trace w1 @ [C_GetStringUTFChars, C_chdir True, C_ReleaseStringUTFChars]
           @ es @ [C_execvpe True]"
    | (exited) es where "set es \<subseteq> marshal_calls" "r = Child_exited 1" "C_malloc \<in> set es"
        "trace w' = trace w1 @ [C_GetStringUTFChars, C_chdir True, C_ReleaseStringUTFChars]
           @ es @ [C_execvpe False, C_log, C_exit 1]"
    by blast
  then show ?thesis
  proof cases
    case chdir
    from cs [OF chdir(2)] chdir(1) show ?thesis by simp
  next
    case undefined
    from cs [OF undefined(3)] undefined(1,2) show ?thesis by auto
  next
    case executed
    from cs [OF executed(4)] executed(1,2,3) show ?thesis by auto
  next
    case exited
    from cs [OF exited(4)] exited(1,2,3) show ?thesis by auto
  qed
qed

text \<open>
  C4. In the child branch: when \<open>chdir\<close> fails the child exits with status 1, and the
  calls it has made are \<open>GetStringUTFChars\<close>, the failed \<open>chdir\<close>, the log and \<open>exit\<close>: no
  vector was built and no exec attempted. When \<open>execvpe\<close> fails the child logs and exits
  with status 1. When \<open>execvpe\<close> succeeds it is the last call of the run, which ends in
  the new program. In no case does the child return to the caller of
  \<open>createSubprocess\<close>.
\<close>

theorem child_terminates_or_executes:
  assumes "openpty_out os = Some (pty, tty)" "fork_out os = 0"
    and "createSubprocess os cmdarray envarray workingDir w = (r, w')"
  shows "(C_chdir False \<in> set (calls_since w w') \<longrightarrow>
            r = Child_exited 1
            \<and> calls_since w w'
                = [C_forkpty tt, C_GetStringUTFChars, C_chdir False, C_log, C_exit 1])
     \<and> (C_execvpe False \<in> set (calls_since w w') \<longrightarrow>
            r = Child_exited 1
            \<and> (\<exists>cs. calls_since w w' = cs @ [C_execvpe False, C_log, C_exit 1]))
     \<and> (C_execvpe True \<in> set (calls_since w w') \<longrightarrow>
            (\<exists>name args e. r = Child_executed name args e)
            \<and> (\<exists>cs. calls_since w w' = cs @ [C_execvpe True]))
     \<and> (\<forall>x. r \<noteq> Returned x)"
proof -
  from createSubprocess_child_cases [OF assms] consider
      (chdir) "r = Child_exited 1"
        "calls_since w w' = [C_forkpty tt, C_GetStringUTFChars, C_chdir False, C_log, C_exit 1]"
    | (undefined) es where "set es \<subseteq> marshal_calls" "r = Undefined_behaviour"
        "calls_since w w'
           = [C_forkpty tt, C_GetStringUTFChars, C_chdir True, C_ReleaseStringUTFChars] @ es"
    | (executed) es where "set es \<subseteq> marshal_calls"
        "\<exists>name args e. r = Child_executed name args e \<and> exec_ok os name args e"
        "calls_since w w'
           = [C_forkpty tt, C_GetStringUTFChars, C_chdir True, C_ReleaseStringUTFChars]
             @ es @ [C_execvpe True]"
    | (exited) es where "set es \<subseteq> marshal_calls" "r = Child_exited 1"
        "calls_since w w'
           = [C_forkpty tt, C_GetStringUTFChars, C_chdir True, C_ReleaseStringUTFChars]
             @ es @ [C_execvpe False, C_log, C_exit 1]"
    by blast
  then show ?thesis
  proof cases
    case chdir
    then show ?thesis by simp
  next
    case undefined
    from marshal_calls_only [OF undefined(1)] undefined(2,3) show ?thesis by simp
  next
    case executed
    have "calls_since w w'
        = ([C_forkpty tt, C_GetStringUTFChars, C_chdir True, C_ReleaseStringUTFChars] @ es)
          @ [C_execvpe True]"
      using executed(3) by simp
    then have "\<exists>cs. calls_since w w' = cs @ [C_execvpe True]" by blast
    with marshal_calls_only [OF executed(1)] executed(2,3) show ?thesis by auto
  next
    case exited
    have "calls_since w w'
        = ([C_forkpty tt, C_GetStringUTFChars, C_chdir True, C_ReleaseStringUTFChars] @ es)
          @ [C_execvpe False, C_log, C_exit 1]"
      using exited(3) by simp
    then have "\<exists>cs. calls_since w w' = cs @ [C_execvpe False, C_log, C_exit 1]" by blast
    with marshal_calls_only [OF exited(1)] exited(2,3) show ?thesis by auto
  qed
qed

lemma example_chdir_fails:
  "calls_since world0 (snd (createSubprocess (platform0\<lparr>fork_out := 0\<rparr>) [''/bin/echo'', ''hello'']
      [] ''/nonexistent'' world0))
   = [C_forkpty tt, C_GetStringUTFChars, C_chdir False, C_log, C_exit 1]"
  by (simp add: run_defs)

lemma example_exec_fails:
  "calls_since world0 (snd (createSubprocess (platform0\<lparr>fork_out := 0\<rparr>) [''/nonexistent/binary'']
      [] ''/'' world0))
   = [C_forkpty tt, C_GetStringUTFChars, C_chdir True, C_ReleaseStringUTFChars,
      C_GetArrayLength, C_malloc, C_GetArrayLength, C_malloc, C_GetObjectArrayElement,
      C_GetStringUTFChars, C_strdup, C_ReleaseStringUTFChars, C_execvpe False, C_log, C_exit 1]"
  by (simp add: run_defs)

lemma example_exec_succeeds:
  "calls_since world0 (snd (createSubprocess (platform0\<lparr>fork_out := 0\<rparr>) [''/bin/echo'', ''hello'']
      [] ''/'' world0))
   = [C_forkpty tt, C_GetStringUTFChars, C_chdir True, C_ReleaseStringUTFChars,
      C_GetArrayLength, C_malloc, C_GetArrayLength, C_malloc, C_GetObjectArrayElement,
      C_GetStringUTFChars, C_strdup, C_ReleaseStringUTFChars, C_GetObjectArrayElement,
      C_GetStringUTFChars, C_strdup, C_ReleaseStringUTFChars, C_execvpe True]"
  by (simp add: run_defs)

theorem child_terminates_or_executes_witness:
  "C_chdir False \<in> set (calls_since world0 (snd (createSubprocess (platform0\<lparr>fork_out := 0\<rparr>)
        [''/bin/echo'', ''hello''] [] ''/nonexistent'' world0)))
   \<and> fst (createSubprocess (platform0\<lparr>fork_out := 0\<rparr>) [''/bin/echo'', ''hello''] []
        ''/nonexistent'' world0) = Child_exited 1
   \<and> C_execvpe False \<in> set (calls_since world0 (snd (createSubprocess (platform0\<lparr>fork_out := 0\<rparr>)
        [''/nonexistent/binary''] [] ''/'' world0)))
   \<and> fst (createSubprocess (platform0\<lparr>fork_out := 0\<rparr>) [''/nonexistent/binary''] [] ''/'' world0)
       = Child_exited 1
   \<and> C_execvpe True \<in> set (calls_since world0 (snd (createSubprocess (platform0\<lparr>fork_out := 0\<rparr>)
        [''/bin/echo'', ''hello''] [] ''/'' world0)))
   \<and> (\<exists>name args e. fst (createSubprocess (platform0\<lparr>fork_out := 0\<rparr>) [''/bin/echo'', ''hello'']
        [] ''/'' world0) = Child_executed name args e)"
proof -
  let ?os = "platform0\<lparr>fork_out := 0\<rparr>"
  have o: "openpty_out ?os = Some (5, 6)" "fork_out ?os = 0" by (simp_all add: platform0_def)
  have p: "createSubprocess ?os c e d world0
      = (fst (createSubprocess ?os c e d world0), snd (createSubprocess ?os c e d world0))"
    for c e d by simp
  have m1: "C_chdir False \<in> set (calls_since world0 (snd (createSubprocess ?os
      [''/bin/echo'', ''hello''] [] ''/nonexistent'' world0)))"
    by (simp add: example_chdir_fails)
  have m2: "C_execvpe False \<in> set (calls_since world0 (snd (createSubprocess ?os
      [''/nonexistent/binary''] [] ''/'' world0)))"
    by (simp add: example_exec_fails)
  have m3: "C_execvpe True \<in> set (calls_since world0 (snd (createSubprocess ?os
      [''/bin/echo'', ''hello''] [] ''/'' world0)))"
    by (simp add: example_exec_succeeds)
  from child_terminates_or_executes [OF o p, of "[''/bin/echo'', ''hello'']" "[]" "''/nonexistent''"] m1
  have r1: "fst (createSubprocess ?os [''/bin/echo'', ''hello''] [] ''/nonexistent'' world0)
      = Child_exited 1" by blast
  from child_terminates_or_executes [OF o p, of "[''/nonexistent/binary'']" "[]" "''/''"] m2
  have r2: "fst (createSubprocess ?os [''/nonexistent/binary''] [] ''/'' world0) = Child_exited 1"
    by blast
  from child_terminates_or_executes [OF o p, of "[''/bin/echo'', ''hello'']" "[]" "''/''"] m3
  have r3: "\<exists>name args e. fst (createSubprocess ?os [''/bin/echo'', ''hello''] [] ''/'' world0)
      = Child_executed name args e" by blast
  from m1 r1 m2 r2 m3 r3 show ?thesis by blast
qed

text \<open>
  C9, as stated, fails: in the run of the child that enters \<open>/\<close> and starts
  \<open>/bin/echo hello\<close> with an empty environment, the calls between \<open>forkpty\<close> and
  \<open>execvpe\<close> include \<open>malloc\<close>, \<open>strdup\<close> and \<open>GetStringUTFChars\<close>, none of which is
  async-signal-safe.
\<close>

theorem child_calls_unsafe_counterexample:
  "fst (createSubprocess (platform0\<lparr>fork_out := 0\<rparr>) [''/bin/echo'', ''hello''] [] ''/'' world0)
     = Child_executed ''/bin/echo'' [''/bin/echo'', ''hello''] []
   \<and> calls_since world0 (snd (createSubprocess (platform0\<lparr>fork_out := 0\<rparr>)
        [''/bin/echo'', ''hello''] [] ''/'' world0))
     = [C_forkpty tt, C_GetStringUTFChars, C_chdir True, C_ReleaseStringUTFChars,
        C_GetArrayLength, C_malloc, C_GetArrayLength, C_malloc, C_GetObjectArrayElement,
        C_GetStringUTFChars, C_strdup, C_ReleaseStringUTFChars, C_GetObjectArrayElement,
        C_GetStringUTFChars, C_strdup, C_ReleaseStringUTFChars, C_execvpe True]
   \<and> \<not> async_signal_safe C_malloc \<and> \<not> async_signal_safe C_strdup
   \<and> \<not> async_signal_safe C_GetStringUTFChars"
  by (simp add: run_defs)

text \<open>
  C9, amended. Of the calls the child branch makes, only the change of working
  directory is async-signal-safe. Every run of the child calls \<open>GetStringUTFChars\<close>; a
  run in which \<open>chdir\<close> fails logs and calls \<open>exit\<close>; a run that reaches \<open>execvpe\<close> has
  called \<open>malloc\<close> before; none of these is async-signal-safe.
\<close>

theorem child_calls_not_async_signal_safe:
  assumes "openpty_out os = Some (pty, tty)" "fork_out os = 0"
    and "createSubprocess os cmdarray envarray workingDir w = (r, w')"
  shows "C_GetStringUTFChars \<in> set (calls_since w w') \<and> \<not> async_signal_safe C_GetStringUTFChars
     \<and> (C_chdir False \<in> set (calls_since w w') \<longrightarrow>
           C_log \<in> set (calls_since w w') \<and> \<not> async_signal_safe C_log
           \<and> C_exit 1 \<in> set (calls_since w w') \<and> \<not> async_signal_safe (C_exit 1))
     \<and> (C_execvpe True \<in> set (calls_since w w') \<or> C_execvpe False \<in> set (calls_since w w') \<longrightarrow>
           C_malloc \<in> set (calls_since w w') \<and> \<not> async_signal_safe C_malloc)
     \<and> (\<forall>c \<in> set (calls_since w w'). async_signal_safe c \<longrightarrow> c = C_chdir True \<or> c = C_chdir False)"
proof -
  have safe: "\<forall>c \<in> set (calls_since w w'). async_signal_safe c \<longrightarrow> c = C_chdir True \<or> c = C_chdir False"
  proof (intro ballI impI)
    fix c assume "async_signal_safe c"
    then show "c = C_chdir True \<or> c = C_chdir False" by (cases c) auto
  qed
  from createSubprocess_child_cases [OF assms] consider
      (chdir) "r = Child_exited 1"
        "calls_since w w' = [C_forkpty tt, C_GetStringUTFChars, C_chdir False, C_log, C_exit 1]"
    | (undefined) es where "set es \<subseteq> marshal_calls" "r = Undefined_behaviour"
        "calls_since w w'
           = [C_forkpty tt, C_GetStringUTFChars, C_chdir True, C_ReleaseStringUTFChars] @ es"
    | (executed) es where "set es \<subseteq> marshal_calls" "C_malloc \<in> set es"
        "calls_since w w'
           = [C_forkpty tt, C_GetStringUTFChars, C_chdir True, C_ReleaseStringUTFChars]
             @ es @ [C_execvpe True]"
    | (exited) es where "set es \<subseteq> marshal_calls" "C_malloc \<in> set es"
        "calls_since w w'
           = [C_forkpty tt, C_GetStringUTFChars, C_chdir True, C_ReleaseStringUTFChars]
             @ es @ [C_execvpe False, C_log, C_exit 1]"
    by blast
  then have "C_GetStringUTFChars \<in> set (calls_since w w')
     \<and> (C_chdir False \<in> set (calls_since w w') \<longrightarrow>
           C_log \<in> set (calls_since w w') \<and> C_exit 1 \<in> set (calls_since w w'))
     \<and> (C_execvpe True \<in> set (calls_since w w') \<or> C_execvpe False \<in> set (calls_since w w') \<longrightarrow>
           C_malloc \<in> set (calls_since w w'))"
  proof cases
    case chdir
    then show ?thesis by simp
  next
    case undefined
    from marshal_calls_only [OF undefined(1)] undefined(3) show ?thesis by simp
  next
    case executed
    from marshal_calls_only [OF executed(1)] executed(2,3) show ?thesis by simp
  next
    case exited
    from marshal_calls_only [OF exited(1)] exited(2,3) show ?thesis by simp
  qed
  with safe show ?thesis by simp
qed

theorem child_calls_not_async_signal_safe_witness:
  "C_chdir False \<in> set (calls_since world0 (snd (createSubprocess (platform0\<lparr>fork_out := 0\<rparr>)
        [''/bin/echo'', ''hello''] [] ''/nonexistent'' world0)))
   \<and> C_log \<in> set (calls_since world0 (snd (createSubprocess (platform0\<lparr>fork_out := 0\<rparr>)
        [''/bin/echo'', ''hello''] [] ''/nonexistent'' world0)))
   \<and> C_execvpe True \<in> set (calls_since world0 (snd (createSubprocess (platform0\<lparr>fork_out := 0\<rparr>)
        [''/bin/echo'', ''hello''] [] ''/'' world0)))
   \<and> C_malloc \<in> set (calls_since world0 (snd (createSubprocess (platform0\<lparr>fork_out := 0\<rparr>)
        [''/bin/echo'', ''hello''] [] ''/'' world0)))
   \<and> C_chdir True \<in> set (calls_since world0 (snd (createSubprocess (platform0\<lparr>fork_out := 0\<rparr>)
        [''/bin/echo'', ''hello''] [] ''/'' world0)))
   \<and> async_signal_safe (C_chdir True)"
proof -
  let ?os = "platform0\<lparr>fork_out := 0\<rparr>"
  have o: "openpty_out ?os = Some (5, 6)" "fork_out ?os = 0" by (simp_all add: platform0_def)
  have p: "createSubprocess ?os c e d world0
      = (fst (createSubprocess ?os c e d world0), snd (createSubprocess ?os c e d world0))"
    for c e d by simp
  have m1: "C_chdir False \<in> set (calls_since world0 (snd (createSubprocess ?os
      [''/bin/echo'', ''hello''] [] ''/nonexistent'' world0)))"
    by (simp add: example_chdir_fails)
  have m3: "C_execvpe True \<in> set (calls_since world0 (snd (createSubprocess ?os
      [''/bin/echo'', ''hello''] [] ''/'' world0)))"
    "C_chdir True \<in> set (calls_since world0 (snd (createSubprocess ?os
      [''/bin/echo'', ''hello''] [] ''/'' world0)))"
    by (simp_all add: example_exec_succeeds)
  from child_calls_not_async_signal_safe [OF o p, of "[''/bin/echo'', ''hello'']" "[]" "''/nonexistent''"] m1
  have r1: "C_log \<in> set (calls_since world0 (snd (createSubprocess ?os
      [''/bin/echo'', ''hello''] [] ''/nonexistent'' world0)))" by blast
  from child_calls_not_async_signal_safe [OF o p, of "[''/bin/echo'', ''hello'']" "[]" "''/''"] m3(1)
  have r3: "C_malloc \<in> set (calls_since world0 (snd (createSubprocess ?os
      [''/bin/echo'', ''hello''] [] ''/'' world0)))" by blast
  from m1 r1 m3 r3 show ?thesis by simp
qed

subsection \<open>The vectors\<close>

text \<open>
  C3. When the allocation requests succeed, building a vector from any sequence of
  \<open>N\<close> strings gives a vector of \<open>N + 1\<close> slots whose last slot is \<open>NULL\<close>. Slot \<open>i < N\<close>
  points to a block of its own (not the vector, not the block of another slot) that
  holds the C string of the \<open>i\<close>-th input and its terminator, so that it compares
  equal to the input as a C string. Of the blocks allocated on the way only the vector
  and these copies are live at the end: the buffers \<open>GetStringUTFChars\<close> handed out
  have been released, so no copy shares memory with its original; the blocks that were
  live before are untouched. Read back, the vector is the sequence of the C strings of
  the inputs: the inputs themselves when none contains a \<open>NUL\<close>.
\<close>

theorem marshal_round_trip:
  assumes "\<forall>n. alloc_ok os n"
  shows "\<exists>a w' slots. marshal os arr w = Some (Addr a, w') \<and> a = brk w
     \<and> heap w' a = Some (Ptrs slots) \<and> length slots = length arr + 1
     \<and> slots ! length arr = Some NULL
     \<and> (\<forall>i<length arr. \<exists>b. slots ! i = Some (Addr b) \<and> b \<noteq> a
            \<and> heap w' b = Some (Bytes (c_str (arr ! i) @ [NUL]))
            \<and> read_str w' (Addr b) = Some (c_str (arr ! i))
            \<and> (\<forall>j<length arr. j \<noteq> i \<longrightarrow> slots ! j \<noteq> slots ! i))
     \<and> (\<forall>x. a < x \<longrightarrow> x < brk w' \<longrightarrow> heap w' x \<noteq> None \<longrightarrow>
            (\<exists>i<length arr. slots ! i = Some (Addr x)))
     \<and> (\<forall>x. x < a \<or> brk w' \<le> x \<longrightarrow> heap w' x = heap w x)
     \<and> read_vec w' (Addr a) = Some (map c_str arr)
     \<and> ((\<forall>s \<in> set arr. NUL \<notin> set s) \<longrightarrow> read_vec w' (Addr a) = Some arr)"
proof -
  have ok: "alloc_ok os (requests w)" "\<forall>k<length arr. alloc_ok os (requests w + 1 + 2 * k)"
    using assms by simp_all
  from marshal_spec [OF ok] obtain w' slots where m:
    "marshal os arr w = Some (Addr (brk w), w')"
    "heap w' (brk w) = Some (Ptrs slots)" "length slots = Suc (length arr)"
    "slots ! length arr = Some NULL"
    "requests w' = requests w + 1 + 2 * length arr"
    "brk w < brk w'"
    "\<forall>x. x < brk w \<or> brk w' \<le> x \<longrightarrow> heap w' x = heap w x"
    "\<forall>k<length arr.
          (if alloc_ok os (requests w + 2 + 2 * k)
           then \<exists>b. slots ! k = Some (Addr b) \<and> brk w < b \<and> b < brk w'
                    \<and> heap w' b = Some (Bytes (c_str (arr ! k) @ [NUL]))
           else slots ! k = Some NULL)"
    "\<forall>x. brk w < x \<longrightarrow> x < brk w' \<longrightarrow> heap w' x \<noteq> None \<longrightarrow>
          (\<exists>k<length arr. slots ! k = Some (Addr x))"
    "\<forall>k k' b b'. k < k' \<longrightarrow> k' < length arr \<longrightarrow>
          slots ! k = Some (Addr b) \<longrightarrow> slots ! k' = Some (Addr b') \<longrightarrow> b < b'"
    by (elim exE conjE) (rule that; assumption)
  have copy: "\<exists>b. slots ! k = Some (Addr b) \<and> brk w < b
      \<and> heap w' b = Some (Bytes (c_str (arr ! k) @ [NUL]))" if "k < length arr" for k
    using m(8) that assms by auto
  have entries: "\<forall>i<length arr. \<exists>b. slots ! i = Some (Addr b) \<and> b \<noteq> brk w
            \<and> heap w' b = Some (Bytes (c_str (arr ! i) @ [NUL]))
            \<and> read_str w' (Addr b) = Some (c_str (arr ! i))
            \<and> (\<forall>j<length arr. j \<noteq> i \<longrightarrow> slots ! j \<noteq> slots ! i)"
  proof (intro allI impI)
    fix i assume i: "i < length arr"
    from copy [OF i] obtain b where b: "slots ! i = Some (Addr b)" "brk w < b"
      "heap w' b = Some (Bytes (c_str (arr ! i) @ [NUL]))" by blast
    have rd: "read_str w' (Addr b) = Some (c_str (arr ! i))"
      using b(3) by (simp add: read_str_def c_str_append_NUL c_str_idem)
    have distinct: "\<forall>j<length arr. j \<noteq> i \<longrightarrow> slots ! j \<noteq> slots ! i"
    proof (intro allI impI)
      fix j assume j: "j < length arr" "j \<noteq> i"
      from copy [OF j(1)] obtain b' where b': "slots ! j = Some (Addr b')" by blast
      from j(2) consider "j < i" | "i < j" by linarith
      then have "b' \<noteq> b"
      proof cases
        case 1
        with m(10) i b(1) b' have "b' < b" by blast
        then show ?thesis by simp
      next
        case 2
        with m(10) j(1) b(1) b' have "b < b'" by blast
        then show ?thesis by simp
      qed
      with b(1) b' show "slots ! j \<noteq> slots ! i" by simp
    qed
    from b rd distinct
    show "\<exists>b. slots ! i = Some (Addr b) \<and> b \<noteq> brk w
            \<and> heap w' b = Some (Bytes (c_str (arr ! i) @ [NUL]))
            \<and> read_str w' (Addr b) = Some (c_str (arr ! i))
            \<and> (\<forall>j<length arr. j \<noteq> i \<longrightarrow> slots ! j \<noteq> slots ! i)"
      by auto
  qed
  have pre: "\<forall>k<length arr. \<exists>b. slots ! k = Some (Addr b)
      \<and> heap w' b = Some (Bytes (c_str (arr ! k) @ [NUL]))"
    using copy by blast
  have "read_slots w' slots = Some (map c_str (take (length arr) arr))"
    by (rule read_slots_prefix [OF _ m(4) _ pre]) (simp_all add: m(3))
  then have rv: "read_vec w' (Addr (brk w)) = Some (map c_str arr)"
    using m(2) by (simp add: read_vec_def)
  have plain: "(\<forall>s \<in> set arr. NUL \<notin> set s) \<longrightarrow> read_vec w' (Addr (brk w)) = Some arr"
  proof
    assume "\<forall>s \<in> set arr. NUL \<notin> set s"
    then have "map c_str arr = arr" by (simp add: c_str_no_NUL map_idI)
    with rv show "read_vec w' (Addr (brk w)) = Some arr" by simp
  qed
  have len: "length slots = length arr + 1" using m(3) by simp
  show ?thesis
    by (intro exI conjI) (rule m(1) refl m(2) len m(4) entries m(9) m(7) rv plain)+
qed

theorem marshal_round_trip_witness:
  "(\<forall>n. alloc_ok platform0 n)
   \<and> NUL \<notin> set ''A=1'' \<and> NUL \<notin> set ''B=2''
   \<and> (\<exists>a w'. marshal platform0 [''A=1'', ''B=2''] world0 = Some (Addr a, w')
         \<and> load w' (Addr a) 2 = Some NULL
         \<and> read_vec w' (Addr a) = Some [''A=1'', ''B=2''])"
proof -
  have ok: "\<forall>n. alloc_ok platform0 n" by (simp add: platform0_def always_def)
  have nn: "\<forall>s \<in> set [''A=1'', ''B=2'']. NUL \<notin> set s" by (simp add: NUL_def)
  from marshal_round_trip [OF ok, of "[''A=1'', ''B=2'']" world0]
  obtain a w' slots where r: "marshal platform0 [''A=1'', ''B=2''] world0 = Some (Addr a, w')"
    "heap w' a = Some (Ptrs slots)" "length slots = length [''A=1'', ''B=2''] + 1"
    "slots ! length [''A=1'', ''B=2''] = Some NULL"
    "(\<forall>s \<in> set [''A=1'', ''B=2'']. NUL \<notin> set s) \<longrightarrow> read_vec w' (Addr a) = Some [''A=1'', ''B=2'']"
    by blast
  from r(2,3,4) have "load w' (Addr a) 2 = Some NULL" by (simp add: load_def numeral_2_eq_2)
  with ok nn r(1,5) show ?thesis by auto
qed

text \<open>
  C6, as stated, fails: when the duplication of the second of three environment
  entries fails (allocation request 5 of the child), nothing is signalled and nothing
  is released. Slot 1 is \<open>NULL\<close>, the duplicate of the first entry stays allocated at
  address 3, and the child goes on to start the program, with the truncated
  environment \<open>A=1\<close>.
\<close>

theorem unsignalled_allocation_failure_counterexample:
  "\<not> alloc_ok (platform0\<lparr>fork_out := 0, alloc_ok := all_but 5\<rparr>) 5
   \<and> fst (createSubprocess (platform0\<lparr>fork_out := 0, alloc_ok := all_but 5\<rparr>)
        [''/bin/echo'', ''hello''] [''A=1'', ''B=2'', ''C=3''] ''/'' world0)
      = Child_executed ''/bin/echo'' [''/bin/echo'', ''hello''] [''A=1'']
   \<and> heap (snd (createSubprocess (platform0\<lparr>fork_out := 0, alloc_ok := all_but 5\<rparr>)
        [''/bin/echo'', ''hello''] [''A=1'', ''B=2'', ''C=3''] ''/'' world0)) 3
      = Some (Bytes (''A=1'' @ [CHR 0x00]))
   \<and> load (snd (createSubprocess (platform0\<lparr>fork_out := 0, alloc_ok := all_but 5\<rparr>)
        [''/bin/echo'', ''hello''] [''A=1'', ''B=2'', ''C=3''] ''/'' world0)) (Addr 1) 0
      = Some (Addr 3)
   \<and> load (snd (createSubprocess (platform0\<lparr>fork_out := 0, alloc_ok := all_but 5\<rparr>)
        [''/bin/echo'', ''hello''] [''A=1'', ''B=2'', ''C=3''] ''/'' world0)) (Addr 1) 1
      = Some NULL"
  by (simp add: run_defs)

text \<open>
  C6, amended. When the vector and the buffers of \<open>GetStringUTFChars\<close> are obtained,
  failures of \<open>strdup\<close> are neither signalled nor followed by a release: building the
  vector runs to its end over all \<open>N\<close> entries, the slot of an entry whose duplication
  failed holds \<open>NULL\<close>, and the duplicate of every other entry, before or after it, is
  still allocated at the end.
\<close>

theorem marshal_failed_strdup:
  assumes "alloc_ok os (requests w)" "\<forall>i<length arr. alloc_ok os (requests w + 1 + 2 * i)"
  shows "\<exists>a w' slots. marshal os arr w = Some (Addr a, w')
     \<and> heap w' a = Some (Ptrs slots) \<and> length slots = length arr + 1
     \<and> slots ! length arr = Some NULL
     \<and> requests w' = requests w + 1 + 2 * length arr
     \<and> (\<forall>i<length arr.
           if alloc_ok os (requests w + 2 + 2 * i)
           then \<exists>b. slots ! i = Some (Addr b)
                  \<and> heap w' b = Some (Bytes (c_str (arr ! i) @ [NUL]))
           else slots ! i = Some NULL)"
proof -
  from marshal_spec [OF assms] obtain w' slots where m:
    "marshal os arr w = Some (Addr (brk w), w')"
    "heap w' (brk w) = Some (Ptrs slots)" "length slots = Suc (length arr)"
    "slots ! length arr = Some NULL"
    "requests w' = requests w + 1 + 2 * length arr"
    "\<forall>k<length arr.
          (if alloc_ok os (requests w + 2 + 2 * k)
           then \<exists>b. slots ! k = Some (Addr b) \<and> brk w < b \<and> b < brk w'
                    \<and> heap w' b = Some (Bytes (c_str (arr ! k) @ [NUL]))
           else slots ! k = Some NULL)"
    by blast
  have len: "length slots = length arr + 1" using m(3) by simp
  have entries: "\<forall>i<length arr.
           if alloc_ok os (requests w + 2 + 2 * i)
           then \<exists>b. slots ! i = Some (Addr b)
                  \<and> heap w' b = Some (Bytes (c_str (arr ! i) @ [NUL]))
           else slots ! i = Some NULL"
  proof (intro allI impI)
    fix i assume "i < length arr"
    with m(6) show "if alloc_ok os (requests w + 2 + 2 * i)
           then \<exists>b. slots ! i = Some (Addr b)
                  \<and> heap w' b = Some (Bytes (c_str (arr ! i) @ [NUL]))
           else slots ! i = Some NULL"
      by (auto split: if_splits)
  qed
  show ?thesis
    by (intro exI conjI) (rule m(1) m(2) len m(4) m(5) entries)+
qed

theorem marshal_failed_strdup_witness:
  "alloc_ok (platform0\<lparr>alloc_ok := all_but 4\<rparr>) (requests world0)
   \<and> alloc_ok (platform0\<lparr>alloc_ok := all_but 4\<rparr>) (requests world0 + 1 + 2 * 0)
   \<and> alloc_ok (platform0\<lparr>alloc_ok := all_but 4\<rparr>) (requests world0 + 1 + 2 * 1)
   \<and> alloc_ok (platform0\<lparr>alloc_ok := all_but 4\<rparr>) (requests world0 + 1 + 2 * 2)
   \<and> \<not> alloc_ok (platform0\<lparr>alloc_ok := all_but 4\<rparr>) (requests world0 + 2 + 2 * 1)
   \<and> (\<exists>a w'. marshal (platform0\<lparr>alloc_ok := all_but 4\<rparr>) [''A=1'', ''B=2'', ''C=3''] world0
                = Some (Addr a, w')
         \<and> load w' (Addr a) 1 = Some NULL
         \<and> (\<exists>b. load w' (Addr a) 0 = Some (Addr b) \<and> heap w' b = Some (Bytes (''A=1'' @ [NUL])))
         \<and> (\<exists>b. load w' (Addr a) 2 = Some (Addr b) \<and> heap w' b = Some (Bytes (''C=3'' @ [NUL]))))"
proof -
  let ?os = "platform0\<lparr>alloc_ok := all_but 4\<rparr>"
  let ?arr = "[''A=1'', ''B=2'', ''C=3'']"
  have a1: "alloc_ok ?os (requests world0)" by (simp add: world0_def all_but_def)
  have a2: "\<forall>i<length ?arr. alloc_ok ?os (requests world0 + 1 + 2 * i)"
  proof (intro allI impI)
    fix i :: nat
    have "2 * i \<noteq> 3" by presburger
    then show "alloc_ok ?os (requests world0 + 1 + 2 * i)"
      by (simp add: world0_def all_but_def)
  qed
  have a3: "\<not> alloc_ok ?os (requests world0 + 2 + 2 * 1)" "alloc_ok ?os (requests world0 + 2 + 2 * 0)"
    "alloc_ok ?os (requests world0 + 2 + 2 * 2)"
    by (simp_all add: world0_def all_but_def)
  from marshal_failed_strdup [OF a1 a2] obtain a w' slots where r:
    "marshal ?os ?arr world0 = Some (Addr a, w')"
    "heap w' a = Some (Ptrs slots)" "length slots = length ?arr + 1"
    "\<forall>i<length ?arr.
           if alloc_ok ?os (requests world0 + 2 + 2 * i)
           then \<exists>b. slots ! i = Some (Addr b)
                  \<and> heap w' b = Some (Bytes (c_str (?arr ! i) @ [NUL]))
           else slots ! i = Some NULL"
    by blast
  have i0: "(0::nat) < length ?arr" and i1: "(1::nat) < length ?arr" and i2: "(2::nat) < length ?arr"
    by simp_all
  from r(4) i1 a3(1) have s1: "slots ! 1 = Some NULL" by (metis (no_types, lifting))
  from r(4) i0 a3(2) obtain b0 where s0: "slots ! 0 = Some (Addr b0)"
    "heap w' b0 = Some (Bytes (c_str (?arr ! 0) @ [NUL]))" by (metis (no_types, lifting))
  from r(4) i2 a3(3) obtain b2 where s2: "slots ! 2 = Some (Addr b2)"
    "heap w' b2 = Some (Bytes (c_str (?arr ! 2) @ [NUL]))" by (metis (no_types, lifting))
  have l: "load w' (Addr a) 1 = Some NULL" "load w' (Addr a) 0 = Some (Addr b0)"
    "load w' (Addr a) 2 = Some (Addr b2)"
    using r(2,3) s0(1) s1 s2(1) by (simp_all add: load_def)
  have h: "heap w' b0 = Some (Bytes (''A=1'' @ [NUL]))" "heap w' b2 = Some (Bytes (''C=3'' @ [NUL]))"
    using s0(2) s2(2) by (simp_all add: c_str_def NUL_def)
  have a4: "alloc_ok ?os (requests world0 + 1 + 2 * 0)" "alloc_ok ?os (requests world0 + 1 + 2 * 1)"
    "alloc_ok ?os (requests world0 + 1 + 2 * 2)"
    by (simp_all add: world0_def all_but_def)
  from a1 a4 a3(1) r(1) l h show ?thesis by blast
qed

end
